theory Spec2Isabelle
  imports Main "HOL-Library.AList"
begin

section \<open>Values of the program\<close>

text \<open>
  A Python \<open>str\<close> is a sequence of Unicode code points and \<open>len\<close> counts code points, so
  a string is a list of code points here; \<open>ascii\<close> turns an ASCII literal into one. The
  bytes of a response body (\<open>response.content\<close>) are a list of byte values.
\<close>

type_synonym pystr = "nat list"
type_synonym bytes = "nat list"

definition ascii :: "string \<Rightarrow> pystr" where
  "ascii cs = map of_char cs"

definition newline :: nat where
  "newline = 10"

definition space :: nat where
  "space = 32"

text \<open>The character U+2026, the one-character string \<open>"\<dots>"\<close> of \<open>__post_init__\<close>.\<close>

definition ellipsis :: nat where
  "ellipsis = 8230"

text \<open>\<open>str(n)\<close> of a non-negative integer, as the f-string \<open>f"messages?page={page}"\<close> needs it.\<close>

function str_of_nat :: "nat \<Rightarrow> pystr" where
  "str_of_nat n = (if n < 10 then [48 + n] else str_of_nat (n div 10) @ [48 + n mod 10])"
  by pat_completeness auto
termination
  by (relation "measure id") auto

text \<open>
  The values \<open>json.loads\<close> produces. The API this client talks to has no fractional
  numbers in its resources, and the model has none.
\<close>

datatype json =
    JNull
  | JBool bool
  | JInt int
  | JStr pystr
  | JList "json list"
  | JDict "(pystr \<times> json) list"

text \<open>
  The exceptions of the program. \<open>HTTPError\<close> carries the response, that is its status
  and its body, as \<open>requests.HTTPError(msg, response=self)\<close> does; \<open>RequestException\<close>
  stands for a call of \<open>requests\<close> that yields no response (no connection, timeout).
  \<open>IllTyped\<close> is the model's own: the records below carry the annotated field types, and a
  JSON value of another type, which the source would store unchecked, ends the
  computation there.
\<close>

record response =
  status_code :: nat
  content :: bytes
  json_body :: "json option"

datatype error =
    HTTPError response
  | RequestException
  | JSONDecodeError
  | KeyError pystr
  | TypeError
  | IndexError
  | DomainNotAvailableException
  | IllTyped pystr

definition bindE :: "error + 'a \<Rightarrow> ('a \<Rightarrow> error + 'b) \<Rightarrow> error + 'b" where
  "bindE r f = (case r of Inl e \<Rightarrow> Inl e | Inr v \<Rightarrow> f v)"

text \<open>\<open>data[key]\<close>: a missing key raises KeyError, subscripting anything but a dict by a
  string raises TypeError.\<close>

fun getitem :: "json \<Rightarrow> pystr \<Rightarrow> error + json" where
  "getitem (JDict kvs) k = (case map_of kvs k of None \<Rightarrow> Inl (KeyError k) | Some v \<Rightarrow> Inr v)"
| "getitem _ k = Inl TypeError"

text \<open>\<open>data[key] = value\<close>.\<close>

fun setitem :: "json \<Rightarrow> pystr \<Rightarrow> json \<Rightarrow> error + json" where
  "setitem (JDict kvs) k v = Inr (JDict (AList.update k v kvs))"
| "setitem _ k v = Inl TypeError"

text \<open>\<open>for x in value\<close>: a list yields its elements, a dict its keys, a string its
  characters; nothing else is iterable.\<close>

fun py_iter :: "json \<Rightarrow> error + json list" where
  "py_iter (JList xs) = Inr xs"
| "py_iter (JDict kvs) = Inr (map (\<lambda>kv. JStr (fst kv)) kvs)"
| "py_iter (JStr s) = Inr (map (\<lambda>c. JStr [c]) s)"
| "py_iter _ = Inl TypeError"

text \<open>Reading a field of an annotated type out of a dict.\<close>

fun as_str :: "pystr \<Rightarrow> json \<Rightarrow> error + pystr" where
  "as_str k (JStr s) = Inr s"
| "as_str k _ = Inl (IllTyped k)"

fun as_int :: "pystr \<Rightarrow> json \<Rightarrow> error + int" where
  "as_int k (JInt i) = Inr i"
| "as_int k _ = Inl (IllTyped k)"

fun as_bool :: "pystr \<Rightarrow> json \<Rightarrow> error + bool" where
  "as_bool k (JBool b) = Inr b"
| "as_bool k _ = Inl (IllTyped k)"

fun as_opt_str :: "pystr \<Rightarrow> json \<Rightarrow> error + pystr option" where
  "as_opt_str k JNull = Inr None"
| "as_opt_str k (JStr s) = Inr (Some s)"
| "as_opt_str k _ = Inl (IllTyped k)"

fun as_opt_bool :: "pystr \<Rightarrow> json \<Rightarrow> error + bool option" where
  "as_opt_bool k JNull = Inr None"
| "as_opt_bool k (JBool b) = Inr (Some b)"
| "as_opt_bool k _ = Inl (IllTyped k)"

definition get_str :: "json \<Rightarrow> string \<Rightarrow> error + pystr" where
  "get_str d k = bindE (getitem d (ascii k)) (as_str (ascii k))"

definition get_int :: "json \<Rightarrow> string \<Rightarrow> error + int" where
  "get_int d k = bindE (getitem d (ascii k)) (as_int (ascii k))"

definition get_bool :: "json \<Rightarrow> string \<Rightarrow> error + bool" where
  "get_bool d k = bindE (getitem d (ascii k)) (as_bool (ascii k))"

definition get_opt_str :: "json \<Rightarrow> string \<Rightarrow> error + pystr option" where
  "get_opt_str d k = bindE (getitem d (ascii k)) (as_opt_str (ascii k))"

definition get_opt_bool :: "json \<Rightarrow> string \<Rightarrow> error + bool option" where
  "get_opt_bool d k = bindE (getitem d (ascii k)) (as_opt_bool (ascii k))"

definition get_any :: "json \<Rightarrow> string \<Rightarrow> error + json" where
  "get_any d k = getitem d (ascii k)"

section \<open>The resources\<close>

text \<open>
  The three dataclasses. Field names carry the prefix of their class (\<open>dom_\<close>, \<open>acc_\<close>,
  \<open>msg_\<close>), since the classes share names (\<open>id\<close>, \<open>isDeleted\<close>, \<open>createdAt\<close>, \<open>updatedAt\<close>)
  and \<open>id\<close> is a constant of HOL. Objects live in a store and are named by their
  address: an Account holds the addresses of its Message objects, a Message the address
  of its Account. Fields of type \<open>Dict\<close> or \<open>List\<close>, which the program only stores, hold the
  JSON value (\<open>JNull\<close> for \<open>None\<close>).
\<close>

type_synonym ref = nat

record Domain =
  dom_id :: pystr
  dom_domain :: pystr
  dom_isActive :: bool
  dom_isPrivate :: bool
  dom_createdAt :: pystr
  dom_updatedAt :: pystr

record Account =
  acc_id :: pystr
  acc_address :: pystr
  acc_quota :: int
  acc_used :: int
  acc_isDisabled :: bool
  acc_isDeleted :: bool
  acc_createdAt :: pystr
  acc_updatedAt :: pystr
  acc_password :: pystr
  acc_messages :: "ref list"
  acc_jwt :: "pystr option"

record Message =
  msg_account :: ref
  msg_id :: pystr
  msg_accountId :: pystr
  msg_msgid :: pystr
  msg_message_from :: json
  msg_message_to :: json
  msg_subject :: pystr
  msg_seen :: bool
  msg_isDeleted :: bool
  msg_hasAttachments :: bool
  msg_size :: int
  msg_downloadUrl :: pystr
  msg_createdAt :: pystr
  msg_updatedAt :: pystr
  msg_is_full_message :: bool
  msg_intro :: "pystr option"
  msg_cc :: json
  msg_bcc :: json
  msg_flagged :: "bool option"
  msg_verifications :: json
  msg_retention :: "bool option"
  msg_retentionDate :: "pystr option"
  msg_text :: "pystr option"
  msg_html :: json
  msg_attachments :: json

section \<open>The network and the state\<close>

datatype HTTPVerb = GET | POST | DELETE | PATCH

record request =
  req_verb :: HTTPVerb
  req_url :: pystr
  req_headers :: "(pystr \<times> pystr) list"
  req_data :: "pystr option"

text \<open>What one call of \<open>requests.get\<close>, \<open>post\<close>, \<open>delete\<close> or \<open>patch\<close> comes back with.\<close>

datatype outcome = Response response | NoResponse

text \<open>
  The environment of the program: the server, which answers a request knowing the
  requests sent before it; \<open>json.dumps\<close>; the name \<open>generate_username(1)[0].lower()\<close>
  evaluates to; and the numbers behind \<open>random.choice\<close>.
\<close>

record env =
  server :: "request list \<Rightarrow> request \<Rightarrow> outcome"
  json_dumps :: "json \<Rightarrow> pystr"
  generated_username :: pystr
  randoms :: "nat \<Rightarrow> nat"

text \<open>
  The state: the two stores with their allocation counters, the requests sent so far
  (oldest first) and the number of random draws made.
\<close>

record state =
  accounts :: "ref \<Rightarrow> Account"
  next_account :: ref
  msgs :: "ref \<Rightarrow> Message"
  next_msg :: ref
  sent :: "request list"
  drawn :: nat

section \<open>The request dispatcher\<close>

definition api_address :: pystr where
  "api_address = ascii ''https://api.mail.tm''"

text \<open>The default of the parameter \<open>content\<close>.\<close>

definition default_content :: pystr where
  "default_content = ascii ''application/json''"

text \<open>\<open>if jwt:\<close> holds for a string that is not empty, and neither for \<open>None\<close> nor for \<open>""\<close>.\<close>

fun truthy :: "pystr option \<Rightarrow> bool" where
  "truthy None = False"
| "truthy (Some t) = (t \<noteq> [])"

text \<open>\<open>f"Bearer {jwt}"\<close>; \<open>None\<close> is formatted as the text \<open>None\<close>.\<close>

fun format_opt :: "pystr option \<Rightarrow> pystr" where
  "format_opt None = ascii ''None''"
| "format_opt (Some t) = t"

text \<open>\<open>Response.raise_for_status\<close> of the library \<open>requests\<close> raises for a status from
  400 to 599, and for no other.\<close>

definition raise_for_status :: "response \<Rightarrow> bool" where
  "raise_for_status r = ((400 \<le> status_code r \<and> status_code r < 500)
     \<or> (500 \<le> status_code r \<and> status_code r < 600))"

text \<open>\<open>response.json()\<close>.\<close>

definition response_json :: "response \<Rightarrow> error + json" where
  "response_json r = (case json_body r of None \<Rightarrow> Inl JSONDecodeError | Some j \<Rightarrow> Inr j)"

definition auth_headers :: "pystr option \<Rightarrow> pystr \<Rightarrow> (pystr \<times> pystr) list" where
  "auth_headers jwt content_type =
     (let hs = [(ascii ''accept'', ascii ''application/ld+json''),
                (ascii ''Content-Type'', content_type)]
      in if truthy jwt
         then AList.update (ascii ''Authorization'') (ascii ''Bearer '' @ format_opt jwt) hs
         else hs)"

definition build_request ::
  "env \<Rightarrow> HTTPVerb \<Rightarrow> pystr \<Rightarrow> pystr option \<Rightarrow> json option \<Rightarrow> pystr \<Rightarrow> request" where
  "build_request e requests_verb endpoint jwt data content_type =
     (let url = api_address @ ascii ''/'' @ endpoint;
          hs = auth_headers jwt content_type
      in case data of
           Some d \<Rightarrow>
             if requests_verb = POST \<or> requests_verb = PATCH
             then \<lparr>req_verb = requests_verb, req_url = url, req_headers = hs,
                   req_data = Some (json_dumps e d)\<rparr>
             else \<lparr>req_verb = requests_verb, req_url = url, req_headers = hs, req_data = None\<rparr>
         | None \<Rightarrow>
             \<lparr>req_verb = requests_verb, req_url = url, req_headers = hs, req_data = None\<rparr>)"

definition make_api_request ::
  "env \<Rightarrow> HTTPVerb \<Rightarrow> pystr \<Rightarrow> pystr option \<Rightarrow> json option \<Rightarrow> pystr \<Rightarrow> state
     \<Rightarrow> (error + json) \<times> state" where
  "make_api_request e requests_verb endpoint jwt data content_type s =
     (let rq = build_request e requests_verb endpoint jwt data content_type;
          s' = s\<lparr>sent := sent s @ [rq]\<rparr>
      in case server e (sent s) rq of
           NoResponse \<Rightarrow> (Inl RequestException, s')
         | Response r \<Rightarrow>
             if raise_for_status r then (Inl (HTTPError r), s')
             else if length (content r) > 0 then (response_json r, s')
             else (Inr (JDict []), s'))"

section \<open>Domain\<close>

definition Domain_from_dict :: "json \<Rightarrow> error + Domain" where
  "Domain_from_dict domain_data =
     bindE (get_str domain_data ''id'') (\<lambda>v1.
     bindE (get_str domain_data ''domain'') (\<lambda>v2.
     bindE (get_bool domain_data ''isActive'') (\<lambda>v3.
     bindE (get_bool domain_data ''isPrivate'') (\<lambda>v4.
     bindE (get_str domain_data ''createdAt'') (\<lambda>v5.
     bindE (get_str domain_data ''updatedAt'') (\<lambda>v6.
     Inr \<lparr>dom_id = v1, dom_domain = v2, dom_isActive = v3, dom_isPrivate = v4,
          dom_createdAt = v5, dom_updatedAt = v6\<rparr>))))))"

text \<open>The loop of \<open>get_active_domains\<close>: the first element that fails to convert raises.\<close>

fun Domains_from_list :: "json list \<Rightarrow> error + Domain list" where
  "Domains_from_list [] = Inr []"
| "Domains_from_list (domain_data # rest) =
     bindE (Domain_from_dict domain_data) (\<lambda>d.
     bindE (Domains_from_list rest) (\<lambda>ds. Inr (d # ds)))"

definition get_active_domains :: "env \<Rightarrow> state \<Rightarrow> (error + Domain list) \<times> state" where
  "get_active_domains e s =
     (case make_api_request e GET (ascii ''domains'') None None default_content s of
        (Inl err, s') \<Rightarrow> (Inl err, s')
      | (Inr data, s') \<Rightarrow>
          (bindE (get_any data ''hydra:member'') (\<lambda>member.
           bindE (py_iter member) Domains_from_list), s'))"

definition get_domain :: "env \<Rightarrow> pystr \<Rightarrow> state \<Rightarrow> (error + Domain) \<times> state" where
  "get_domain e ident s =
     (case make_api_request e GET (ascii ''domains/'' @ ident) None None default_content s of
        (Inl err, s') \<Rightarrow> (Inl err, s')
      | (Inr data, s') \<Rightarrow> (Domain_from_dict data, s'))"

section \<open>Message\<close>

text \<open>\<open>str.replace("\n", " ")\<close>.\<close>

definition replace_newlines :: "pystr \<Rightarrow> pystr" where
  "replace_newlines t = map (\<lambda>c. if c = newline then space else c) t"

definition Message_post_init :: "Message \<Rightarrow> Message" where
  "Message_post_init self =
     (case msg_text self of
        Some t \<Rightarrow>
          if msg_is_full_message self \<and> msg_intro self = None
          then (let text = take 120 (replace_newlines t);
                    text = (if length t > 120 then text @ [ellipsis] else text)
                in self\<lparr>msg_intro := Some text\<rparr>)
          else self
      | None \<Rightarrow> self)"

text \<open>\<open>Message(...)\<close>: the object is initialised from its fields, \<open>__post_init__\<close> runs,
  and the object gets a fresh address.\<close>

definition Message_init :: "Message \<Rightarrow> state \<Rightarrow> ref \<times> state" where
  "Message_init flds s =
     (next_msg s,
      s\<lparr>msgs := (msgs s)(next_msg s := Message_post_init flds), next_msg := Suc (next_msg s)\<rparr>)"

definition Message_intro_fields :: "json \<Rightarrow> ref \<Rightarrow> error + Message" where
  "Message_intro_fields data account =
     bindE (get_str data ''id'') (\<lambda>v1.
     bindE (get_str data ''accountId'') (\<lambda>v2.
     bindE (get_str data ''msgid'') (\<lambda>v3.
     bindE (get_any data ''from'') (\<lambda>v4.
     bindE (get_any data ''to'') (\<lambda>v5.
     bindE (get_str data ''subject'') (\<lambda>v6.
     bindE (get_bool data ''seen'') (\<lambda>v7.
     bindE (get_bool data ''isDeleted'') (\<lambda>v8.
     bindE (get_bool data ''hasAttachments'') (\<lambda>v9.
     bindE (get_int data ''size'') (\<lambda>v10.
     bindE (get_str data ''downloadUrl'') (\<lambda>v11.
     bindE (get_str data ''createdAt'') (\<lambda>v12.
     bindE (get_str data ''updatedAt'') (\<lambda>v13.
     bindE (get_opt_str data ''intro'') (\<lambda>v14.
     Inr \<lparr>msg_account = account, msg_id = v1, msg_accountId = v2, msg_msgid = v3,
          msg_message_from = v4, msg_message_to = v5, msg_subject = v6, msg_seen = v7,
          msg_isDeleted = v8, msg_hasAttachments = v9, msg_size = v10,
          msg_downloadUrl = v11, msg_createdAt = v12, msg_updatedAt = v13,
          msg_is_full_message = False, msg_intro = v14,
          msg_cc = JNull, msg_bcc = JNull, msg_flagged = None, msg_verifications = JNull,
          msg_retention = None, msg_retentionDate = None, msg_text = None,
          msg_html = JNull, msg_attachments = JNull\<rparr>))))))))))))))"

definition Message_from_intro_dict ::
  "json \<Rightarrow> ref \<Rightarrow> state \<Rightarrow> (error + ref) \<times> state" where
  "Message_from_intro_dict data account s =
     (case Message_intro_fields data account of
        Inl err \<Rightarrow> (Inl err, s)
      | Inr flds \<Rightarrow> (case Message_init flds s of (r, s') \<Rightarrow> (Inr r, s')))"

definition Message_full_fields :: "json \<Rightarrow> ref \<Rightarrow> error + Message" where
  "Message_full_fields data account =
     bindE (get_str data ''id'') (\<lambda>v1.
     bindE (get_str data ''accountId'') (\<lambda>v2.
     bindE (get_str data ''msgid'') (\<lambda>v3.
     bindE (get_any data ''from'') (\<lambda>v4.
     bindE (get_any data ''to'') (\<lambda>v5.
     bindE (get_str data ''subject'') (\<lambda>v6.
     bindE (get_bool data ''seen'') (\<lambda>v7.
     bindE (get_bool data ''isDeleted'') (\<lambda>v8.
     bindE (get_bool data ''hasAttachments'') (\<lambda>v9.
     bindE (get_int data ''size'') (\<lambda>v10.
     bindE (get_str data ''downloadUrl'') (\<lambda>v11.
     bindE (get_str data ''createdAt'') (\<lambda>v12.
     bindE (get_str data ''updatedAt'') (\<lambda>v13.
     bindE (get_any data ''cc'') (\<lambda>v14.
     bindE (get_any data ''bcc'') (\<lambda>v15.
     bindE (get_opt_bool data ''flagged'') (\<lambda>v16.
     bindE (get_any data ''verifications'') (\<lambda>v17.
     bindE (get_opt_bool data ''retention'') (\<lambda>v18.
     bindE (get_opt_str data ''retentionDate'') (\<lambda>v19.
     bindE (get_opt_str data ''text'') (\<lambda>v20.
     bindE (get_any data ''html'') (\<lambda>v21.
     bindE (get_any data ''attachments'') (\<lambda>v22.
     Inr \<lparr>msg_account = account, msg_id = v1, msg_accountId = v2, msg_msgid = v3,
          msg_message_from = v4, msg_message_to = v5, msg_subject = v6, msg_seen = v7,
          msg_isDeleted = v8, msg_hasAttachments = v9, msg_size = v10,
          msg_downloadUrl = v11, msg_createdAt = v12, msg_updatedAt = v13,
          msg_is_full_message = True, msg_intro = None,
          msg_cc = v14, msg_bcc = v15, msg_flagged = v16, msg_verifications = v17,
          msg_retention = v18, msg_retentionDate = v19, msg_text = v20,
          msg_html = v21, msg_attachments = v22\<rparr>))))))))))))))))))))))"

definition Message_from_full_dict ::
  "json \<Rightarrow> ref \<Rightarrow> state \<Rightarrow> (error + ref) \<times> state" where
  "Message_from_full_dict data account s =
     (case Message_full_fields data account of
        Inl err \<Rightarrow> (Inl err, s)
      | Inr flds \<Rightarrow> (case Message_init flds s of (r, s') \<Rightarrow> (Inr r, s')))"

text \<open>An assignment \<open>self.field = ...\<close> to the Message at address \<open>self\<close>.\<close>

definition update_msg :: "ref \<Rightarrow> (Message \<Rightarrow> Message) \<Rightarrow> state \<Rightarrow> state" where
  "update_msg self f s = s\<lparr>msgs := (msgs s)(self := f (msgs s self))\<rparr>"

definition update_account :: "ref \<Rightarrow> (Account \<Rightarrow> Account) \<Rightarrow> state \<Rightarrow> state" where
  "update_account self f s = s\<lparr>accounts := (accounts s)(self := f (accounts s self))\<rparr>"

text \<open>One assignment \<open>self.field = data[key]\<close> of \<open>get_full_message\<close>: the lookup may
  raise, and then the assignments made before it stay.\<close>

definition assign_from ::
  "error + 'a \<Rightarrow> ref \<Rightarrow> ('a \<Rightarrow> Message \<Rightarrow> Message) \<Rightarrow> (state \<Rightarrow> (error + unit) \<times> state)
     \<Rightarrow> state \<Rightarrow> (error + unit) \<times> state" where
  "assign_from r self f k s =
     (case r of Inl err \<Rightarrow> (Inl err, s) | Inr v \<Rightarrow> k (update_msg self (f v) s))"

definition Message_get_full_message :: "env \<Rightarrow> ref \<Rightarrow> state \<Rightarrow> (error + unit) \<times> state" where
  "Message_get_full_message e self s =
     (case make_api_request e GET (ascii ''messages/'' @ msg_id (msgs s self))
             (acc_jwt (accounts s (msg_account (msgs s self)))) None default_content s of
        (Inl err, s') \<Rightarrow> (Inl err, s')
      | (Inr data, s') \<Rightarrow>
          (assign_from (get_any data ''cc'') self (\<lambda>v m. m\<lparr>msg_cc := v\<rparr>)
          (assign_from (get_any data ''bcc'') self (\<lambda>v m. m\<lparr>msg_bcc := v\<rparr>)
          (assign_from (get_opt_bool data ''flagged'') self (\<lambda>v m. m\<lparr>msg_flagged := v\<rparr>)
          (assign_from (get_any data ''verifications'') self (\<lambda>v m. m\<lparr>msg_verifications := v\<rparr>)
          (assign_from (get_opt_bool data ''retention'') self (\<lambda>v m. m\<lparr>msg_retention := v\<rparr>)
          (assign_from (get_opt_str data ''retentionDate'') self
             (\<lambda>v m. m\<lparr>msg_retentionDate := v\<rparr>)
          (assign_from (get_opt_str data ''text'') self (\<lambda>v m. m\<lparr>msg_text := v\<rparr>)
          (assign_from (get_any data ''html'') self (\<lambda>v m. m\<lparr>msg_html := v\<rparr>)
          (assign_from (get_any data ''attachments'') self (\<lambda>v m. m\<lparr>msg_attachments := v\<rparr>)
          (\<lambda>s. (Inr (), s)))))))))))
            (update_msg self (\<lambda>m. m\<lparr>msg_is_full_message := True\<rparr>) s'))"




section \<open>Account\<close>

definition Account_init :: "Account \<Rightarrow> state \<Rightarrow> ref \<times> state" where
  "Account_init flds s =
     (next_account s,
      s\<lparr>accounts := (accounts s)(next_account s := flds),
        next_account := Suc (next_account s)\<rparr>)"

definition Account_fields :: "json \<Rightarrow> pystr option \<Rightarrow> error + Account" where
  "Account_fields data jwt =
     bindE (get_str data ''id'') (\<lambda>v1.
     bindE (get_str data ''address'') (\<lambda>v2.
     bindE (get_int data ''quota'') (\<lambda>v3.
     bindE (get_int data ''used'') (\<lambda>v4.
     bindE (get_bool data ''isDisabled'') (\<lambda>v5.
     bindE (get_bool data ''isDeleted'') (\<lambda>v6.
     bindE (get_str data ''createdAt'') (\<lambda>v7.
     bindE (get_str data ''updatedAt'') (\<lambda>v8.
     bindE (get_str data ''password'') (\<lambda>v9.
     Inr \<lparr>acc_id = v1, acc_address = v2, acc_quota = v3, acc_used = v4,
          acc_isDisabled = v5, acc_isDeleted = v6, acc_createdAt = v7, acc_updatedAt = v8,
          acc_password = v9, acc_messages = [], acc_jwt = jwt\<rparr>)))))))))"

definition Account_from_dict ::
  "json \<Rightarrow> pystr option \<Rightarrow> state \<Rightarrow> (error + ref) \<times> state" where
  "Account_from_dict data jwt s =
     (case Account_fields data jwt of
        Inl err \<Rightarrow> (Inl err, s)
      | Inr flds \<Rightarrow> (case Account_init flds s of (r, s') \<Rightarrow> (Inr r, s')))"

definition get_jwt :: "env \<Rightarrow> pystr \<Rightarrow> pystr \<Rightarrow> state \<Rightarrow> (error + pystr) \<times> state" where
  "get_jwt e address password s =
     (let account = JDict [(ascii ''address'', JStr address), (ascii ''password'', JStr password)]
      in case make_api_request e POST (ascii ''token'') None (Some account) default_content s of
           (Inl err, s') \<Rightarrow> (Inl err, s')
         | (Inr data, s') \<Rightarrow> (get_str data ''token'', s'))"

definition Account_login :: "env \<Rightarrow> ref \<Rightarrow> state \<Rightarrow> (error + unit) \<times> state" where
  "Account_login e self s =
     (case get_jwt e (acc_address (accounts s self)) (acc_password (accounts s self)) s of
        (Inl err, s') \<Rightarrow> (Inl err, s')
      | (Inr token, s') \<Rightarrow> (Inr (), update_account self (\<lambda>a. a\<lparr>acc_jwt := Some token\<rparr>) s'))"

definition Account_is_logged_in :: "ref \<Rightarrow> state \<Rightarrow> bool" where
  "Account_is_logged_in self s =
     (case acc_jwt (accounts s self) of None \<Rightarrow> False | Some t \<Rightarrow> length t > 0)"

definition Account_delete :: "env \<Rightarrow> ref \<Rightarrow> state \<Rightarrow> (error + bool) \<times> state" where
  "Account_delete e self s =
     (case make_api_request e DELETE (ascii ''accounts/'' @ acc_id (accounts s self))
             (acc_jwt (accounts s self)) None default_content s of
        (Inl err, s') \<Rightarrow> (Inl err, s')
      | (Inr data, s') \<Rightarrow>
          (let s'' = update_account self (\<lambda>a. a\<lparr>acc_isDeleted := True\<rparr>) s'
           in (Inr (acc_isDeleted (accounts s'' self)), s'')))"

text \<open>The loop of \<open>_download_messages_page\<close> over the elements of the page.\<close>

fun Messages_from_intro_list ::
  "json list \<Rightarrow> ref \<Rightarrow> state \<Rightarrow> (error + ref list) \<times> state" where
  "Messages_from_intro_list [] self s = (Inr [], s)"
| "Messages_from_intro_list (message_data # rest) self s =
     (case Message_from_intro_dict message_data self s of
        (Inl err, s') \<Rightarrow> (Inl err, s')
      | (Inr r, s') \<Rightarrow>
          (case Messages_from_intro_list rest self s' of
             (Inl err, s'') \<Rightarrow> (Inl err, s'')
           | (Inr rs, s'') \<Rightarrow> (Inr (r # rs), s'')))"

definition Account_download_messages_page ::
  "env \<Rightarrow> ref \<Rightarrow> nat \<Rightarrow> state \<Rightarrow> (error + ref list) \<times> state" where
  "Account_download_messages_page e self page s =
     (case make_api_request e GET (ascii ''messages?page='' @ str_of_nat page)
             (acc_jwt (accounts s self)) None default_content s of
        (Inl err, s') \<Rightarrow> (Inl err, s')
      | (Inr data, s') \<Rightarrow>
          (case bindE (get_any data ''hydra:member'') py_iter of
             Inl err \<Rightarrow> (Inl err, s')
           | Inr items \<Rightarrow> Messages_from_intro_list items self s'))"

text \<open>
  The \<open>while\<close> loop of \<open>get_all_messages_intro\<close>. Nothing bounds the number of pages a
  server may return, so the loop need not end: the result is an option, and \<open>None\<close> is a
  run that never returns.
\<close>

partial_function (option) download_all_pages ::
  "env \<Rightarrow> ref \<Rightarrow> nat \<Rightarrow> ref list \<Rightarrow> ref list \<Rightarrow> state
     \<Rightarrow> ((error + ref list) \<times> state) option" where
  "download_all_pages e self page messages page_messages s =
     (if length page_messages > 0
      then (case Account_download_messages_page e self (page + 1) s of
              (Inl err, s') \<Rightarrow> Some (Inl err, s')
            | (Inr next_page, s') \<Rightarrow>
                download_all_pages e self (page + 1) (messages @ page_messages) next_page s')
      else Some (Inr messages, s))"

text \<open>The \<open>for\<close> loop of \<open>get_all_messages_intro\<close>.\<close>

fun add_new_messages :: "ref \<Rightarrow> ref list \<Rightarrow> state \<Rightarrow> state" where
  "add_new_messages self [] s = s"
| "add_new_messages self (message # rest) s =
     (let check = filter (\<lambda>x. msg_id (msgs s x) = msg_id (msgs s message))
                    (acc_messages (accounts s self))
      in add_new_messages self rest
           (if length check = 0
            then update_account self (\<lambda>a. a\<lparr>acc_messages := acc_messages a @ [message]\<rparr>) s
            else s))"

definition Account_get_all_messages_intro ::
  "env \<Rightarrow> ref \<Rightarrow> state \<Rightarrow> ((error + ref list) \<times> state) option" where
  "Account_get_all_messages_intro e self s =
     (case Account_download_messages_page e self 1 s of
        (Inl err, s') \<Rightarrow> Some (Inl err, s')
      | (Inr page_messages, s') \<Rightarrow>
          (case download_all_pages e self 1 [] page_messages s' of
             None \<Rightarrow> None
           | Some (Inl err, s'') \<Rightarrow> Some (Inl err, s'')
           | Some (Inr messages, s'') \<Rightarrow>
               (let s3 = add_new_messages self messages s''
                in Some (Inr (acc_messages (accounts s3 self)), s3))))"

section \<open>AccountManager\<close>

text \<open>\<open>string.ascii_letters + string.digits\<close>.\<close>

definition letters :: pystr where
  "letters = ascii ''abcdefghijklmnopqrstuvwxyzABCDEFGHIJKLMNOPQRSTUVWXYZ0123456789''"

text \<open>\<open>random.choice\<close> on a sequence that is not empty.\<close>

definition random_choice :: "env \<Rightarrow> pystr \<Rightarrow> state \<Rightarrow> nat \<times> state" where
  "random_choice e xs s =
     (xs ! (randoms e (drawn s) mod length xs), s\<lparr>drawn := Suc (drawn s)\<rparr>)"

fun generate_random_password :: "env \<Rightarrow> nat \<Rightarrow> state \<Rightarrow> pystr \<times> state" where
  "generate_random_password e 0 s = ([], s)"
| "generate_random_password e (Suc n) s =
     (case random_choice e letters s of
        (c, s') \<Rightarrow> (case generate_random_password e n s' of (cs, s'') \<Rightarrow> (c # cs, s'')))"

definition generate_address ::
  "env \<Rightarrow> pystr option \<Rightarrow> pystr option \<Rightarrow> state \<Rightarrow> (error + pystr) \<times> state" where
  "generate_address e user domain s =
     (case get_active_domains e s of
        (Inl err, s') \<Rightarrow> (Inl err, s')
      | (Inr valid_domains, s') \<Rightarrow>
          (case (case domain of
                   None \<Rightarrow>
                     (case valid_domains of
                        [] \<Rightarrow> Inl IndexError
                      | d # ds \<Rightarrow> Inr (dom_domain d))
                 | Some dn \<Rightarrow>
                     if length (filter (\<lambda>x. dom_domain x = dn) valid_domains) = 0
                     then Inl DomainNotAvailableException
                     else Inr dn) of
             Inl err \<Rightarrow> (Inl err, s')
           | Inr dn \<Rightarrow>
               (Inr ((case user of None \<Rightarrow> generated_username e | Some u \<Rightarrow> u)
                       @ ascii ''@'' @ dn), s')))"

definition AccountManager_new ::
  "env \<Rightarrow> pystr option \<Rightarrow> pystr option \<Rightarrow> pystr option \<Rightarrow> state
     \<Rightarrow> (error + ref) \<times> state" where
  "AccountManager_new e user domain password s =
     (case generate_address e user domain s of
        (Inl err, s1) \<Rightarrow> (Inl err, s1)
      | (Inr address, s1) \<Rightarrow>
          (case (case password of
                   None \<Rightarrow> generate_random_password e 6 s1
                 | Some p \<Rightarrow> (p, s1)) of
             (pw, s2) \<Rightarrow>
               (let account = JDict [(ascii ''address'', JStr address),
                                     (ascii ''password'', JStr pw)]
                in case make_api_request e POST (ascii ''accounts'') None (Some account)
                          default_content s2 of
                     (Inl err, s3) \<Rightarrow> (Inl err, s3)
                   | (Inr data, s3) \<Rightarrow>
                       (case setitem data (ascii ''password'') (JStr pw) of
                          Inl err \<Rightarrow> (Inl err, s3)
                        | Inr data' \<Rightarrow> Account_from_dict data' None s3))))"

definition get_account_data ::
  "env \<Rightarrow> pystr \<Rightarrow> pystr option \<Rightarrow> state \<Rightarrow> (error + json) \<times> state" where
  "get_account_data e jwt account_id s =
     (let endpoint = (case account_id of
                        None \<Rightarrow> ascii ''me''
                      | Some i \<Rightarrow> ascii ''accounts/'' @ i)
      in make_api_request e GET endpoint (Some jwt) None default_content s)"

definition AccountManager_login ::
  "env \<Rightarrow> pystr \<Rightarrow> pystr \<Rightarrow> state \<Rightarrow> (error + ref) \<times> state" where
  "AccountManager_login e address password s =
     (case get_jwt e address password s of
        (Inl err, s1) \<Rightarrow> (Inl err, s1)
      | (Inr jwt, s1) \<Rightarrow>
          (case get_account_data e jwt None s1 of
             (Inl err, s2) \<Rightarrow> (Inl err, s2)
           | (Inr data, s2) \<Rightarrow>
               (case setitem data (ascii ''password'') (JStr password) of
                  Inl err \<Rightarrow> (Inl err, s2)
                | Inr data' \<Rightarrow> Account_from_dict data' (Some jwt) s2)))"

section \<open>Pages served to the pagination loop\<close>

text \<open>
  \<open>pages_served e self page s ps s'\<close>: from state \<open>s\<close> on, the requests for the pages
  \<open>page\<close>, \<open>page + 1\<close>, ... are answered with the pages \<open>ps\<close>, each with at least one
  element, and then with a page of no element; \<open>s'\<close> is the state after the last of these
  downloads.
\<close>

inductive pages_served ::
  "env \<Rightarrow> ref \<Rightarrow> nat \<Rightarrow> state \<Rightarrow> ref list list \<Rightarrow> state \<Rightarrow> bool" where
  last_page:
    "Account_download_messages_page e self page s = (Inr [], s')
     \<Longrightarrow> pages_served e self page s [] s'"
| next_page:
    "Account_download_messages_page e self page s = (Inr p, s1) \<Longrightarrow> p \<noteq> []
     \<Longrightarrow> pages_served e self (Suc page) s1 ps s'
     \<Longrightarrow> pages_served e self page s (p # ps) s'"

text \<open>The request \<open>_download_messages_page\<close> sends for a page, given the token of the account.\<close>

definition page_request :: "env \<Rightarrow> pystr option \<Rightarrow> nat \<Rightarrow> request" where
  "page_request e jwt page =
     build_request e GET (ascii ''messages?page='' @ str_of_nat page) jwt None default_content"

section \<open>Example data\<close>

definition example_account :: Account where
  "example_account =
     \<lparr>acc_id = ascii ''a1'', acc_address = ascii ''bob@example.com'', acc_quota = 40000000,
      acc_used = 0, acc_isDisabled = False, acc_isDeleted = False,
      acc_createdAt = ascii ''2024-01-01'', acc_updatedAt = ascii ''2024-01-01'',
      acc_password = ascii ''secret'', acc_messages = [], acc_jwt = Some (ascii ''tok'')\<rparr>"

text \<open>A full message whose text is 61 times \<open>a\<close> and a newline, and which has no intro yet.\<close>

definition example_full_message :: Message where
  "example_full_message =
     \<lparr>msg_account = 0, msg_id = ascii ''m1'', msg_accountId = ascii ''a1'',
      msg_msgid = ascii ''x1'', msg_message_from = JDict [], msg_message_to = JList [],
      msg_subject = ascii ''hi'', msg_seen = False, msg_isDeleted = False,
      msg_hasAttachments = False, msg_size = 122, msg_downloadUrl = ascii ''/d/m1'',
      msg_createdAt = ascii ''2024-01-01'', msg_updatedAt = ascii ''2024-01-01'',
      msg_is_full_message = True, msg_intro = None,
      msg_cc = JList [], msg_bcc = JList [], msg_flagged = Some False,
      msg_verifications = JList [], msg_retention = Some False, msg_retentionDate = None,
      msg_text = Some (concat (replicate 61 (ascii ''a'' @ [newline]))),
      msg_html = JList [], msg_attachments = JList []\<rparr>"

text \<open>One account, at address 0, logged in and without messages; nothing sent yet.\<close>

definition example_state :: state where
  "example_state =
     \<lparr>accounts = (\<lambda>r. example_account), next_account = 1,
      msgs = (\<lambda>r. example_full_message), next_msg = 0, sent = [], drawn = 0\<rparr>"

text \<open>The same account holding one message, the full message \<open>m1\<close> at address 0.\<close>

definition full_state :: state where
  "full_state =
     \<lparr>accounts = (\<lambda>r. example_account\<lparr>acc_messages := [0]\<rparr>), next_account = 1,
      msgs = (\<lambda>r. example_full_message), next_msg = 1, sent = [], drawn = 0\<rparr>"

definition summary_json :: "string \<Rightarrow> json" where
  "summary_json i =
     JDict [(ascii ''id'', JStr (ascii i)), (ascii ''accountId'', JStr (ascii ''a1'')),
            (ascii ''msgid'', JStr (ascii i)), (ascii ''from'', JDict []),
            (ascii ''to'', JList []), (ascii ''subject'', JStr (ascii ''hi'')),
            (ascii ''seen'', JBool False), (ascii ''isDeleted'', JBool False),
            (ascii ''hasAttachments'', JBool False), (ascii ''size'', JInt 10),
            (ascii ''downloadUrl'', JStr (ascii ''/d'')),
            (ascii ''createdAt'', JStr (ascii ''2024-01-01'')),
            (ascii ''updatedAt'', JStr (ascii ''2024-01-01'')),
            (ascii ''intro'', JStr (ascii ''hello''))]"

definition domain_json :: json where
  "domain_json =
     JDict [(ascii ''id'', JStr (ascii ''d1'')), (ascii ''domain'', JStr (ascii ''example.com'')),
            (ascii ''isActive'', JBool True), (ascii ''isPrivate'', JBool False),
            (ascii ''createdAt'', JStr (ascii ''2024-01-01'')),
            (ascii ''updatedAt'', JStr (ascii ''2024-01-01''))]"

definition account_json :: json where
  "account_json =
     JDict [(ascii ''id'', JStr (ascii ''a2'')), (ascii ''address'', JStr (ascii ''bob@example.com'')),
            (ascii ''quota'', JInt 40000000), (ascii ''used'', JInt 0),
            (ascii ''isDisabled'', JBool False), (ascii ''isDeleted'', JBool False),
            (ascii ''createdAt'', JStr (ascii ''2024-01-01'')),
            (ascii ''updatedAt'', JStr (ascii ''2024-01-01''))]"

text \<open>The full resource of the message \<open>m1\<close>.\<close>

definition full_json :: json where
  "full_json =
     JDict [(ascii ''id'', JStr (ascii ''m1'')), (ascii ''accountId'', JStr (ascii ''a1'')),
            (ascii ''msgid'', JStr (ascii ''m1'')), (ascii ''from'', JDict []),
            (ascii ''to'', JList []), (ascii ''cc'', JList []), (ascii ''bcc'', JList []),
            (ascii ''subject'', JStr (ascii ''hi'')), (ascii ''seen'', JBool False),
            (ascii ''flagged'', JBool False), (ascii ''isDeleted'', JBool False),
            (ascii ''verifications'', JList []), (ascii ''retention'', JBool False),
            (ascii ''retentionDate'', JNull), (ascii ''text'', JStr (ascii ''hello world'')),
            (ascii ''html'', JList []), (ascii ''hasAttachments'', JBool False),
            (ascii ''attachments'', JList []), (ascii ''size'', JInt 10),
            (ascii ''downloadUrl'', JStr (ascii ''/d'')),
            (ascii ''createdAt'', JStr (ascii ''2024-01-01'')),
            (ascii ''updatedAt'', JStr (ascii ''2024-01-01''))]"

text \<open>The Domain object \<open>_from_dict\<close> builds from \<open>domain_json\<close>.\<close>

definition example_domain :: Domain where
  "example_domain =
     \<lparr>dom_id = ascii ''d1'', dom_domain = ascii ''example.com'', dom_isActive = True,
      dom_isPrivate = False, dom_createdAt = ascii ''2024-01-01'',
      dom_updatedAt = ascii ''2024-01-01''\<rparr>"

text \<open>A response of status 200; its body stands for the JSON text that decodes to \<open>j\<close>.\<close>

definition ok_response :: "json \<Rightarrow> outcome" where
  "ok_response j = Response \<lparr>status_code = 200, content = ascii ''{}'', json_body = Some j\<rparr>"

definition empty_response :: "nat \<Rightarrow> response" where
  "empty_response code = \<lparr>status_code = code, content = [], json_body = None\<rparr>"

definition page_json :: "json list \<Rightarrow> json" where
  "page_json items = JDict [(ascii ''hydra:member'', JList items)]"

text \<open>A server with one active domain and four messages on two pages, the first of which
  can be downloaded in full.\<close>

definition example_server :: "request list \<Rightarrow> request \<Rightarrow> outcome" where
  "example_server history rq =
     (if req_verb rq = GET \<and> req_url rq = api_address @ ascii ''/messages?page=1''
      then ok_response (page_json [summary_json ''m1'', summary_json ''m2''])
      else if req_verb rq = GET \<and> req_url rq = api_address @ ascii ''/messages?page=2''
      then ok_response (page_json [summary_json ''m3'', summary_json ''m4''])
      else if req_verb rq = GET \<and> req_url rq = api_address @ ascii ''/messages?page=3''
      then ok_response (page_json [])
      else if req_verb rq = GET \<and> req_url rq = api_address @ ascii ''/domains''
      then ok_response (page_json [domain_json])
      else if req_verb rq = POST \<and> req_url rq = api_address @ ascii ''/accounts''
      then ok_response account_json
      else if req_verb rq = DELETE \<and> req_url rq = api_address @ ascii ''/accounts/a1''
      then Response (empty_response 204)
      else if req_verb rq = GET \<and> req_url rq = api_address @ ascii ''/messages/m1''
      then ok_response full_json
      else Response (empty_response 500))"

text \<open>A server whose second page repeats a message of the first.\<close>

definition overlapping_server :: "request list \<Rightarrow> request \<Rightarrow> outcome" where
  "overlapping_server history rq =
     (if req_verb rq = GET \<and> req_url rq = api_address @ ascii ''/messages?page=1''
      then ok_response (page_json [summary_json ''m1'', summary_json ''m2''])
      else if req_verb rq = GET \<and> req_url rq = api_address @ ascii ''/messages?page=2''
      then ok_response (page_json [summary_json ''m2'', summary_json ''m3''])
      else if req_verb rq = GET \<and> req_url rq = api_address @ ascii ''/messages?page=3''
      then ok_response (page_json [])
      else Response (empty_response 500))"

text \<open>A server with no active domain.\<close>

definition no_domains_server :: "request list \<Rightarrow> request \<Rightarrow> outcome" where
  "no_domains_server history rq =
     (if req_verb rq = GET \<and> req_url rq = api_address @ ascii ''/domains''
      then ok_response (page_json [])
      else Response (empty_response 500))"

text \<open>A server that answers every request with the given status and an empty body.\<close>

definition status_server :: "nat \<Rightarrow> request list \<Rightarrow> request \<Rightarrow> outcome" where
  "status_server code history rq = Response (empty_response code)"

text \<open>A server that answers every request with status 200 and a body that is not JSON.\<close>

definition plain_text_response :: response where
  "plain_text_response = \<lparr>status_code = 200, content = ascii ''deleted'', json_body = None\<rparr>"

definition plain_text_server :: "request list \<Rightarrow> request \<Rightarrow> outcome" where
  "plain_text_server history rq = Response plain_text_response"

definition example_env :: "(request list \<Rightarrow> request \<Rightarrow> outcome) \<Rightarrow> env" where
  "example_env srv =
     \<lparr>server = srv, json_dumps = (\<lambda>j. ascii ''{}''), generated_username = ascii ''bob'',
      randoms = (\<lambda>n. n)\<rparr>"

text \<open>The Message object \<open>_from_intro_dict\<close> builds from \<open>summary_json i\<close>.\<close>

definition summary_message :: "string \<Rightarrow> ref \<Rightarrow> Message" where
  "summary_message i account =
     \<lparr>msg_account = account, msg_id = ascii i, msg_accountId = ascii ''a1'',
      msg_msgid = ascii i, msg_message_from = JDict [], msg_message_to = JList [],
      msg_subject = ascii ''hi'', msg_seen = False, msg_isDeleted = False,
      msg_hasAttachments = False, msg_size = 10, msg_downloadUrl = ascii ''/d'',
      msg_createdAt = ascii ''2024-01-01'', msg_updatedAt = ascii ''2024-01-01'',
      msg_is_full_message = False, msg_intro = Some (ascii ''hello''),
      msg_cc = JNull, msg_bcc = JNull, msg_flagged = None, msg_verifications = JNull,
      msg_retention = None, msg_retentionDate = None, msg_text = None,
      msg_html = JNull, msg_attachments = JNull\<rparr>"

text \<open>The example account holding one message, the summary of \<open>m1\<close> at address 0.\<close>

definition summary_state :: state where
  "summary_state =
     \<lparr>accounts = (\<lambda>r. example_account\<lparr>acc_messages := [0]\<rparr>), next_account = 1,
      msgs = (\<lambda>r. summary_message ''m1'' 0), next_msg = 1, sent = [], drawn = 0\<rparr>"

text \<open>The state after this message has been downloaded in full.\<close>

definition upgraded_state :: state where
  "upgraded_state = snd (Message_get_full_message (example_env example_server) 0 summary_state)"

text \<open>The state after the summaries of a page have been stored, one after the other.\<close>

fun store_summaries :: "string list \<Rightarrow> ref \<Rightarrow> state \<Rightarrow> state" where
  "store_summaries [] account s = s"
| "store_summaries (i # rest) account s =
     store_summaries rest account
       (s\<lparr>msgs := (msgs s)(next_msg s := summary_message i account),
          next_msg := Suc (next_msg s)\<rparr>)"

text \<open>The state after a request has been sent.\<close>

definition after_request :: "request \<Rightarrow> state \<Rightarrow> state" where
  "after_request rq s = s\<lparr>sent := sent s @ [rq]\<rparr>"

text \<open>
  The state after the pages with the given ids have been downloaded for the account
  \<open>self\<close>, starting with page number \<open>page\<close>, and then one more page without elements.
\<close>

fun pages_stored :: "env \<Rightarrow> ref \<Rightarrow> nat \<Rightarrow> string list list \<Rightarrow> state \<Rightarrow> state" where
  "pages_stored e self page [] s =
     after_request (page_request e (acc_jwt (accounts s self)) page) s"
| "pages_stored e self page (ids # rest) s =
     pages_stored e self (Suc page) rest
       (store_summaries ids self
          (after_request (page_request e (acc_jwt (accounts s self)) page) s))"

text \<open>
  \<open>stores_extended s s'\<close>: from \<open>s\<close> to \<open>s'\<close> no Account and no Message object that existed
  in \<open>s\<close> has changed; Message objects may have been added.
\<close>

definition stores_extended :: "state \<Rightarrow> state \<Rightarrow> bool" where
  "stores_extended s s' =
     (accounts s' = accounts s \<and> next_account s' = next_account s
      \<and> next_msg s \<le> next_msg s' \<and> (\<forall>r \<in> {..<next_msg s}. msgs s' r = msgs s r))"

section \<open>The dispatcher\<close>

lemma make_api_request_state:
  "snd (make_api_request e v ep jwt d ct s) = s\<lparr>sent := sent s @ [build_request e v ep jwt d ct]\<rparr>"
  by (simp add: make_api_request_def Let_def split: outcome.splits)

lemma make_api_request_result:
  "fst (make_api_request e v ep jwt d ct s) =
     (case server e (sent s) (build_request e v ep jwt d ct) of
        NoResponse \<Rightarrow> Inl RequestException
      | Response r \<Rightarrow>
          if raise_for_status r then Inl (HTTPError r)
          else if content r = [] then Inr (JDict []) else response_json r)"
  by (simp add: make_api_request_def Let_def split: outcome.splits)

lemma ascii_Nil [simp]: "ascii [] = []"
  by (simp add: ascii_def)

lemma ascii_Cons [simp]: "ascii (c # cs) = of_char c # ascii cs"
  by (simp add: ascii_def)

lemma auth_headers_eq:
  "auth_headers jwt ct =
     [(ascii ''accept'', ascii ''application/ld+json''), (ascii ''Content-Type'', ct)]
     @ (case jwt of
          None \<Rightarrow> []
        | Some t \<Rightarrow> if t = [] then [] else [(ascii ''Authorization'', ascii ''Bearer '' @ t)])"
  by (cases jwt) (simp_all add: auth_headers_def)

lemma build_request_eq:
  "build_request e v ep jwt d ct =
     \<lparr>req_verb = v, req_url = api_address @ ascii ''/'' @ ep,
      req_headers = auth_headers jwt ct,
      req_data = (case d of
                    None \<Rightarrow> None
                  | Some j \<Rightarrow> if v = POST \<or> v = PATCH then Some (json_dumps e j) else None)\<rparr>"
  by (cases d) (simp_all add: build_request_def Let_def)

text \<open>
  Claim C6, as amended. When the server answers a request with a response, the
  dispatcher fails with an HTTPError carrying that response (status and body) if the
  status is between 400 and 599, and the error is its result. Otherwise it returns the
  empty mapping if the body is empty, and the outcome of decoding the body as JSON if
  it is not.
\<close>

theorem make_api_request_status:
  "server e (sent s) (build_request e v ep jwt d ct) = Response r \<Longrightarrow>
   fst (make_api_request e v ep jwt d ct s) =
     (if 400 \<le> status_code r \<and> status_code r < 600 then Inl (HTTPError r)
      else if content r = [] then Inr (JDict [])
      else (case json_body r of None \<Rightarrow> Inl JSONDecodeError | Some j \<Rightarrow> Inr j))"
  by (auto simp add: make_api_request_result raise_for_status_def response_json_def)

theorem make_api_request_status_witness:
  "server (example_env (status_server 500)) (sent example_state)
     (build_request (example_env (status_server 500)) GET (ascii ''domains'') None None
        default_content) = Response (empty_response 500)
   \<and> fst (make_api_request (example_env (status_server 500)) GET (ascii ''domains'') None None
        default_content example_state) = Inl (HTTPError (empty_response 500))"
  using make_api_request_status [of "example_env (status_server 500)" example_state GET
      "ascii ''domains''" None None default_content "empty_response 500"]
  by (simp add: example_env_def status_server_def empty_response_def)

theorem make_api_request_status_counterexample:
  "status_code (empty_response 304) div 100 \<noteq> 2
   \<and> server (example_env (status_server 304)) (sent example_state)
     (build_request (example_env (status_server 304)) GET (ascii ''domains'') None None
        default_content) = Response (empty_response 304)
   \<and> fst (make_api_request (example_env (status_server 304)) GET (ascii ''domains'') None None
        default_content example_state) = Inr (JDict [])"
  by (simp add: make_api_request_result example_env_def status_server_def empty_response_def
      raise_for_status_def)

text \<open>
  Claim C7, as amended. The dispatcher sends one request. Its headers are
  \<open>accept: application/ld+json\<close> and \<open>Content-Type\<close> with the content type passed
  (\<open>application/json\<close> is the default), followed by \<open>Authorization: Bearer <token>\<close> exactly
  when the token is a string that is not empty. Its payload is the JSON text of the body
  when the verb is POST or PATCH and a body is given; there is no payload otherwise, so
  none for GET and DELETE.
\<close>

theorem make_api_request_sends:
  "sent (snd (make_api_request e v ep jwt d ct s)) =
     sent s @
     [\<lparr>req_verb = v, req_url = api_address @ ascii ''/'' @ ep,
       req_headers =
         [(ascii ''accept'', ascii ''application/ld+json''), (ascii ''Content-Type'', ct)]
         @ (case jwt of
              None \<Rightarrow> []
            | Some t \<Rightarrow>
                if t = [] then [] else [(ascii ''Authorization'', ascii ''Bearer '' @ t)]),
       req_data =
         (case d of
            None \<Rightarrow> None
          | Some j \<Rightarrow> if v = POST \<or> v = PATCH then Some (json_dumps e j) else None)\<rparr>]
   \<and> default_content = ascii ''application/json''"
  by (simp add: make_api_request_state build_request_eq auth_headers_eq default_content_def)

theorem make_api_request_sends_counterexample:
  "map_of (req_headers (last (sent (snd (make_api_request (example_env example_server) GET
       (ascii ''me'') (Some []) None default_content example_state)))))
     (ascii ''Authorization'') = None"
  by (simp add: make_api_request_state build_request_eq auth_headers_eq)


section \<open>Account.delete\<close>

lemma Account_delete_dispatched:
  "fst (make_api_request e DELETE (ascii ''accounts/'' @ acc_id (accounts s self))
          (acc_jwt (accounts s self)) None default_content s) = Inr data \<Longrightarrow>
   fst (Account_delete e self s) = Inr (acc_isDeleted (accounts (snd (Account_delete e self s)) self))
   \<and> acc_isDeleted (accounts (snd (Account_delete e self s)) self) = True"
  by (cases "make_api_request e DELETE (ascii ''accounts/'' @ acc_id (accounts s self))
          (acc_jwt (accounts s self)) None default_content s")
    (simp add: Account_delete_def update_account_def Let_def)

text \<open>
  Claim C8, as amended. When the server answers the DELETE request of \<open>Account.delete\<close>
  with a status from 200 to 299 and a body that is empty or decodes as JSON, the
  account's \<open>isDeleted\<close> is true afterwards and the value returned is the new value of
  that field.
\<close>

theorem Account_delete_success:
  "server e (sent s)
     (build_request e DELETE (ascii ''accounts/'' @ acc_id (accounts s self))
        (acc_jwt (accounts s self)) None default_content) = Response r \<Longrightarrow>
   200 \<le> status_code r \<Longrightarrow> status_code r < 300 \<Longrightarrow>
   content r = [] \<or> json_body r \<noteq> None \<Longrightarrow>
   fst (Account_delete e self s) = Inr (acc_isDeleted (accounts (snd (Account_delete e self s)) self))
   \<and> acc_isDeleted (accounts (snd (Account_delete e self s)) self) = True"
proof -
  assume a: "server e (sent s)
     (build_request e DELETE (ascii ''accounts/'' @ acc_id (accounts s self))
        (acc_jwt (accounts s self)) None default_content) = Response r"
    and b: "200 \<le> status_code r" "status_code r < 300"
    and c: "content r = [] \<or> json_body r \<noteq> None"
  have "\<exists>data. fst (make_api_request e DELETE (ascii ''accounts/'' @ acc_id (accounts s self))
          (acc_jwt (accounts s self)) None default_content s) = Inr data"
    using a b c
    by (auto simp add: make_api_request_result raise_for_status_def response_json_def)
  then show ?thesis
    using Account_delete_dispatched by blast
qed

theorem Account_delete_success_witness:
  "server (example_env example_server) (sent example_state)
     (build_request (example_env example_server) DELETE
        (ascii ''accounts/'' @ acc_id (accounts example_state 0))
        (acc_jwt (accounts example_state 0)) None default_content) = Response (empty_response 204)
   \<and> 200 \<le> status_code (empty_response 204) \<and> status_code (empty_response 204) < 300
   \<and> (content (empty_response 204) = [] \<or> json_body (empty_response 204) \<noteq> None)
   \<and> fst (Account_delete (example_env example_server) 0 example_state) = Inr True
   \<and> acc_isDeleted (accounts (snd (Account_delete (example_env example_server) 0 example_state)) 0)"
proof -
  have a: "server (example_env example_server) (sent example_state)
     (build_request (example_env example_server) DELETE
        (ascii ''accounts/'' @ acc_id (accounts example_state 0))
        (acc_jwt (accounts example_state 0)) None default_content) = Response (empty_response 204)"
    by (simp add: example_state_def example_account_def example_env_def example_server_def
        build_request_eq api_address_def)
  have b: "200 \<le> status_code (empty_response 204)" "status_code (empty_response 204) < 300"
    and c: "content (empty_response 204) = [] \<or> json_body (empty_response 204) \<noteq> None"
    by (simp_all add: empty_response_def)
  from Account_delete_success [OF a b c] a b c show ?thesis by simp
qed

theorem Account_delete_success_counterexample:
  "server (example_env plain_text_server) (sent example_state)
     (build_request (example_env plain_text_server) DELETE
        (ascii ''accounts/'' @ acc_id (accounts example_state 0))
        (acc_jwt (accounts example_state 0)) None default_content) = Response plain_text_response
   \<and> status_code plain_text_response = 200
   \<and> fst (Account_delete (example_env plain_text_server) 0 example_state) = Inl JSONDecodeError
   \<and> \<not> acc_isDeleted (accounts (snd (Account_delete (example_env plain_text_server) 0
          example_state)) 0)"
proof -
  define e where "e = example_env plain_text_server"
  define ep where "ep = ascii ''accounts/'' @ acc_id (accounts example_state 0)"
  define jwt where "jwt = acc_jwt (accounts example_state 0)"
  have srv: "server e (sent example_state) (build_request e DELETE ep jwt None default_content)
          = Response plain_text_response"
    by (simp add: e_def example_env_def plain_text_server_def)
  have code: "status_code plain_text_response = 200"
    by (simp add: plain_text_response_def)
  have f: "fst (make_api_request e DELETE ep jwt None default_content example_state)
          = Inl JSONDecodeError"
    by (simp add: make_api_request_result srv)
      (simp add: plain_text_response_def raise_for_status_def response_json_def)
  have "Account_delete e 0 example_state
          = (Inl JSONDecodeError,
             snd (make_api_request e DELETE ep jwt None default_content example_state))"
    using f
    by (cases "make_api_request e DELETE ep jwt None default_content example_state")
      (simp add: Account_delete_def ep_def jwt_def)
  moreover have "\<not> acc_isDeleted (accounts example_state 0)"
    by (simp add: example_state_def example_account_def)
  ultimately have "fst (Account_delete e 0 example_state) = Inl JSONDecodeError"
    and "\<not> acc_isDeleted (accounts (snd (Account_delete e 0 example_state)) 0)"
    by (simp_all add: make_api_request_state)
  with srv code show ?thesis
    unfolding e_def ep_def jwt_def by blast
qed

text \<open>
  Claim C9. When the dispatcher raises for the DELETE request of \<open>Account.delete\<close>, the
  error is the result of \<open>Account.delete\<close>, the request has been sent, and no Account and
  no Message object has changed: \<open>isDeleted\<close> and every other field are as before.
\<close>

theorem Account_delete_failure:
  "fst (make_api_request e DELETE (ascii ''accounts/'' @ acc_id (accounts s self))
          (acc_jwt (accounts s self)) None default_content s) = Inl err \<Longrightarrow>
   fst (Account_delete e self s) = Inl err
   \<and> accounts (snd (Account_delete e self s)) = accounts s
   \<and> msgs (snd (Account_delete e self s)) = msgs s
   \<and> sent (snd (Account_delete e self s)) =
       sent s @ [build_request e DELETE (ascii ''accounts/'' @ acc_id (accounts s self))
                   (acc_jwt (accounts s self)) None default_content]"
proof -
  assume h: "fst (make_api_request e DELETE (ascii ''accounts/'' @ acc_id (accounts s self))
          (acc_jwt (accounts s self)) None default_content s) = Inl err"
  have "Account_delete e self s =
      (Inl err, snd (make_api_request e DELETE (ascii ''accounts/'' @ acc_id (accounts s self))
          (acc_jwt (accounts s self)) None default_content s))"
    using h
    by (cases "make_api_request e DELETE (ascii ''accounts/'' @ acc_id (accounts s self))
          (acc_jwt (accounts s self)) None default_content s")
      (simp add: Account_delete_def)
  then show ?thesis
    by (simp add: make_api_request_state)
qed

theorem Account_delete_failure_witness:
  "fst (make_api_request (example_env (status_server 500)) DELETE
          (ascii ''accounts/'' @ acc_id (accounts example_state 0))
          (acc_jwt (accounts example_state 0)) None default_content example_state)
     = Inl (HTTPError (empty_response 500))
   \<and> fst (Account_delete (example_env (status_server 500)) 0 example_state)
       = Inl (HTTPError (empty_response 500))
   \<and> \<not> acc_isDeleted (accounts (snd (Account_delete (example_env (status_server 500)) 0
          example_state)) 0)
   \<and> length (sent (snd (Account_delete (example_env (status_server 500)) 0 example_state))) = 1"
proof -
  have h: "fst (make_api_request (example_env (status_server 500)) DELETE
          (ascii ''accounts/'' @ acc_id (accounts example_state 0))
          (acc_jwt (accounts example_state 0)) None default_content example_state)
     = Inl (HTTPError (empty_response 500))"
    by (simp add: make_api_request_result example_env_def status_server_def
        raise_for_status_def empty_response_def)
  have "\<not> acc_isDeleted (accounts example_state 0)" "sent example_state = []"
    by (simp_all add: example_state_def example_account_def)
  with Account_delete_failure [OF h] h show ?thesis by simp
qed

section \<open>Message.delete and Message.mark_as_seen\<close>





section \<open>Creating an account\<close>

lemma get_active_domains_state:
  "snd (get_active_domains e s) =
     s\<lparr>sent := sent s @ [build_request e GET (ascii ''domains'') None None default_content]\<rparr>"
  using make_api_request_state [of e GET "ascii ''domains''" None None default_content s]
  by (cases "make_api_request e GET (ascii ''domains'') None None default_content s")
    (auto simp add: get_active_domains_def split: sum.splits)

lemma generate_address_unavailable:
  assumes "get_active_domains e s = (Inr valid_domains, s')"
    and "dn \<notin> dom_domain ` set valid_domains"
  shows "generate_address e user (Some dn) s = (Inl DomainNotAvailableException, s')"
proof -
  from assms(2) have "filter (\<lambda>x. dom_domain x = dn) valid_domains = []"
    by (auto simp add: filter_empty_conv)
  with assms(1) show ?thesis
    by (simp add: generate_address_def)
qed

lemma generate_address_no_domain:
  assumes "get_active_domains e s = (Inr [], s')"
  shows "generate_address e user None s = (Inl IndexError, s')"
  using assms by (simp add: generate_address_def)

lemma generate_address_default_domain:
  assumes "fst (generate_address e user None s) = Inr address"
  shows "\<exists>d ds. fst (get_active_domains e s) = Inr (d # ds)"
  using assms
  by (cases "get_active_domains e s")
    (auto simp add: generate_address_def split: sum.splits list.splits)

lemma AccountManager_new_address_error:
  "generate_address e user domain s = (Inl err, s')
   \<Longrightarrow> AccountManager_new e user domain password s = (Inl err, s')"
  by (simp add: AccountManager_new_def)

lemma AccountManager_new_address_ok:
  "fst (AccountManager_new e user domain password s) = Inr r
   \<Longrightarrow> \<exists>address. fst (generate_address e user domain s) = Inr address"
  by (cases "generate_address e user domain s")
    (auto simp add: AccountManager_new_def split: sum.splits)

lemma domains_request_verb:
  "req_verb (build_request e GET ep jwt d ct) = GET"
  by (simp add: build_request_eq)

text \<open>
  Claim C4, as amended. \<open>AccountManager.new\<close> first fetches the active domains with a GET
  request for \<open>domains\<close>. When that list is returned and the domain the caller gave is
  the domain of none of its elements (compared as strings, character by character),
  \<open>AccountManager.new\<close> fails with DomainNotAvailableException, which is not an HTTPError.
  The GET request for \<open>domains\<close> is the only request sent: no POST request is made.
\<close>

theorem AccountManager_new_domain_not_available:
  "get_active_domains e s = (Inr valid_domains, s') \<Longrightarrow>
   dn \<notin> dom_domain ` set valid_domains \<Longrightarrow>
   AccountManager_new e user (Some dn) password s = (Inl DomainNotAvailableException, s')
   \<and> sent s' = sent s @ [build_request e GET (ascii ''domains'') None None default_content]
   \<and> filter (\<lambda>rq. req_verb rq = POST) (sent s') = filter (\<lambda>rq. req_verb rq = POST) (sent s)
   \<and> (\<forall>r. DomainNotAvailableException \<noteq> HTTPError r)"
proof -
  assume a: "get_active_domains e s = (Inr valid_domains, s')"
    and b: "dn \<notin> dom_domain ` set valid_domains"
  have s': "s' = s\<lparr>sent := sent s @ [build_request e GET (ascii ''domains'') None None default_content]\<rparr>"
    using get_active_domains_state [of e s] a by simp
  show ?thesis
    using AccountManager_new_address_error [OF generate_address_unavailable [OF a b]]
    by (simp add: s' domains_request_verb)
qed

lemma example_domains:
  "fst (get_active_domains (example_env example_server) example_state) = Inr [example_domain]"
  by (simp add: get_active_domains_def make_api_request_def Let_def example_env_def
      example_server_def build_request_eq api_address_def ok_response_def raise_for_status_def
      response_json_def page_json_def get_any_def bindE_def Domain_from_dict_def domain_json_def
      get_str_def get_bool_def example_domain_def)

lemma no_domains:
  "fst (get_active_domains (example_env no_domains_server) example_state) = Inr []"
  by (simp add: get_active_domains_def make_api_request_def Let_def example_env_def
      no_domains_server_def build_request_eq api_address_def ok_response_def raise_for_status_def
      response_json_def page_json_def get_any_def bindE_def)

theorem AccountManager_new_domain_not_available_witness:
  "get_active_domains (example_env example_server) example_state =
     (Inr [example_domain], snd (get_active_domains (example_env example_server) example_state))
   \<and> ascii ''nonexistent.test'' \<notin> dom_domain ` set [example_domain]
   \<and> fst (AccountManager_new (example_env example_server) None (Some (ascii ''nonexistent.test''))
        None example_state) = Inl DomainNotAvailableException
   \<and> map req_verb (sent (snd (AccountManager_new (example_env example_server) None
        (Some (ascii ''nonexistent.test'')) None example_state))) = [GET]"
proof -
  let ?e = "example_env example_server"
  have a: "get_active_domains ?e example_state =
     (Inr [example_domain], snd (get_active_domains ?e example_state))"
    using example_domains by (simp add: prod_eq_iff)
  have b: "ascii ''nonexistent.test'' \<notin> dom_domain ` set [example_domain]"
    by (simp add: example_domain_def)
  have c: "sent example_state = []"
    by (simp add: example_state_def)
  from AccountManager_new_domain_not_available [OF a b, of None None] a b c
  show ?thesis by (simp add: domains_request_verb)
qed

theorem AccountManager_new_domain_not_available_counterexample:
  "ascii ''nonexistent.test'' \<notin> dom_domain ` set [example_domain]
   \<and> fst (get_active_domains (example_env example_server) example_state) = Inr [example_domain]
   \<and> fst (AccountManager_new (example_env example_server) None (Some (ascii ''nonexistent.test''))
        None example_state) = Inl DomainNotAvailableException
   \<and> sent example_state = []
   \<and> map req_url (sent (snd (AccountManager_new (example_env example_server) None
        (Some (ascii ''nonexistent.test'')) None example_state)))
       = [ascii ''https://api.mail.tm/domains'']"
proof -
  let ?e = "example_env example_server"
  have a: "get_active_domains ?e example_state =
     (Inr [example_domain], snd (get_active_domains ?e example_state))"
    using example_domains by (simp add: prod_eq_iff)
  have b: "ascii ''nonexistent.test'' \<notin> dom_domain ` set [example_domain]"
    by (simp add: example_domain_def)
  have c: "sent example_state = []"
    by (simp add: example_state_def)
  have "AccountManager_new ?e None (Some (ascii ''nonexistent.test'')) None example_state
        = (Inl DomainNotAvailableException, snd (get_active_domains ?e example_state))"
    by (rule AccountManager_new_address_error [OF generate_address_unavailable [OF a b]])
  then show ?thesis
    using b c example_domains
    by (simp add: get_active_domains_state build_request_eq api_address_def)
qed

lemma generate_random_password_sent:
  "sent (snd (generate_random_password e n s)) = sent s"
proof (induction n arbitrary: s)
  case 0
  show ?case by simp
next
  case (Suc n)
  obtain c s1 where 1: "random_choice e letters s = (c, s1)"
    by (cases "random_choice e letters s")
  then have 2: "sent s1 = sent s"
    by (auto simp add: random_choice_def)
  obtain cs s2 where 3: "generate_random_password e n s1 = (cs, s2)"
    by (cases "generate_random_password e n s1")
  with Suc.IH [of s1] have "sent s2 = sent s1" by simp
  with 1 2 3 show ?case by simp
qed

lemma Account_from_dict_sent: "sent (snd (Account_from_dict data jwt s)) = sent s"
  by (cases "Account_fields data jwt") (simp_all add: Account_from_dict_def Account_init_def)

lemma generate_address_first_domain:
  assumes "get_active_domains e s = (Inr (d # ds), s')"
  shows "generate_address e user None s =
     (Inr ((case user of None \<Rightarrow> generated_username e | Some u \<Rightarrow> u)
             @ ascii ''@'' @ dom_domain d), s')"
  using assms by (simp add: generate_address_def)

lemma AccountManager_new_sent:
  assumes "generate_address e user domain s = (Inr address, s')"
  shows "sent (snd (AccountManager_new e user domain password s)) =
     sent s' @
     [build_request e POST (ascii ''accounts'') None
        (Some (JDict [(ascii ''address'', JStr address),
                      (ascii ''password'',
                       JStr (case password of
                               None \<Rightarrow> fst (generate_random_password e 6 s')
                             | Some p \<Rightarrow> p))]))
        default_content]"
proof -
  define pw where
    "pw = (case password of None \<Rightarrow> fst (generate_random_password e 6 s') | Some p \<Rightarrow> p)"
  define s2 where
    "s2 = (case password of None \<Rightarrow> snd (generate_random_password e 6 s') | Some p \<Rightarrow> s')"
  define account where
    "account = JDict [(ascii ''address'', JStr address), (ascii ''password'', JStr pw)]"
  have pws: "(case password of None \<Rightarrow> generate_random_password e 6 s' | Some p \<Rightarrow> (p, s'))
               = (pw, s2)"
    by (cases password) (simp_all add: pw_def s2_def)
  have sent2: "sent s2 = sent s'"
    by (cases password) (simp_all add: s2_def generate_random_password_sent)
  obtain r3 s3 where mk:
    "make_api_request e POST (ascii ''accounts'') None (Some account) default_content s2 = (r3, s3)"
    by (cases "make_api_request e POST (ascii ''accounts'') None (Some account) default_content s2")
  have sent3: "sent s3 = sent s' @
      [build_request e POST (ascii ''accounts'') None (Some account) default_content]"
    using make_api_request_state [of e POST "ascii ''accounts''" None "Some account"
        default_content s2] mk sent2 by simp
  have new: "AccountManager_new e user domain password s =
      (case r3 of
         Inl err \<Rightarrow> (Inl err, s3)
       | Inr data \<Rightarrow>
           (case setitem data (ascii ''password'') (JStr pw) of
              Inl err \<Rightarrow> (Inl err, s3)
            | Inr data' \<Rightarrow> Account_from_dict data' None s3))"
    using assms pws mk
    by (simp add: AccountManager_new_def account_def Let_def split: sum.splits)
  have "sent (snd (AccountManager_new e user domain password s)) = sent s3"
    unfolding new
    by (simp add: Account_from_dict_sent split: sum.splits)
  with sent3 show ?thesis
    by (simp add: account_def pw_def)
qed

text \<open>
  Claim C10. When the caller gives no domain, \<open>AccountManager.new\<close> takes the first element
  of the list of active domains without checking that there is one. When the list
  comes back empty, it fails with IndexError, having sent the GET request for \<open>domains\<close>
  and no POST request. When the list has a first element, the address is the user name,
  \<open>@\<close> and the domain of that first element, and this address is what the POST request
  for \<open>accounts\<close> carries. When \<open>AccountManager.new\<close> returns an account for a call
  without a domain, the list of active domains had a first element.
\<close>

theorem AccountManager_new_without_domain:
  "(get_active_domains e s = (Inr [], s') \<longrightarrow>
      AccountManager_new e user None password s = (Inl IndexError, s')
      \<and> sent s' = sent s @ [build_request e GET (ascii ''domains'') None None default_content]
      \<and> filter (\<lambda>rq. req_verb rq = POST) (sent s') = filter (\<lambda>rq. req_verb rq = POST) (sent s))
   \<and> (get_active_domains e s = (Inr (d # ds), s') \<longrightarrow>
      generate_address e user None s =
        (Inr ((case user of None \<Rightarrow> generated_username e | Some u \<Rightarrow> u)
                @ ascii ''@'' @ dom_domain d), s')
      \<and> sent (snd (AccountManager_new e user None password s)) =
          sent s @
          [build_request e GET (ascii ''domains'') None None default_content,
           build_request e POST (ascii ''accounts'') None
             (Some (JDict [(ascii ''address'',
                            JStr ((case user of None \<Rightarrow> generated_username e | Some u \<Rightarrow> u)
                                    @ ascii ''@'' @ dom_domain d)),
                           (ascii ''password'',
                            JStr (case password of
                                    None \<Rightarrow> fst (generate_random_password e 6 s')
                                  | Some p \<Rightarrow> p))]))
             default_content])
   \<and> (fst (AccountManager_new e user None password s) = Inr r \<longrightarrow>
      (\<exists>d ds. fst (get_active_domains e s) = Inr (d # ds)))"
proof (intro conjI impI)
  assume a: "get_active_domains e s = (Inr [], s')"
  have s': "s' = s\<lparr>sent := sent s @ [build_request e GET (ascii ''domains'') None None default_content]\<rparr>"
    using get_active_domains_state [of e s] a by simp
  show "AccountManager_new e user None password s = (Inl IndexError, s')"
    by (rule AccountManager_new_address_error [OF generate_address_no_domain [OF a]])
  show "sent s' = sent s @ [build_request e GET (ascii ''domains'') None None default_content]"
    by (simp add: s')
  show "filter (\<lambda>rq. req_verb rq = POST) (sent s') = filter (\<lambda>rq. req_verb rq = POST) (sent s)"
    by (simp add: s' domains_request_verb)
next
  assume a: "get_active_domains e s = (Inr (d # ds), s')"
  have s': "sent s' = sent s @ [build_request e GET (ascii ''domains'') None None default_content]"
    using get_active_domains_state [of e s] a by simp
  show g: "generate_address e user None s =
        (Inr ((case user of None \<Rightarrow> generated_username e | Some u \<Rightarrow> u)
                @ ascii ''@'' @ dom_domain d), s')"
    by (rule generate_address_first_domain [OF a])
  show "sent (snd (AccountManager_new e user None password s)) =
          sent s @
          [build_request e GET (ascii ''domains'') None None default_content,
           build_request e POST (ascii ''accounts'') None
             (Some (JDict [(ascii ''address'',
                            JStr ((case user of None \<Rightarrow> generated_username e | Some u \<Rightarrow> u)
                                    @ ascii ''@'' @ dom_domain d)),
                           (ascii ''password'',
                            JStr (case password of
                                    None \<Rightarrow> fst (generate_random_password e 6 s')
                                  | Some p \<Rightarrow> p))]))
             default_content]"
    unfolding AccountManager_new_sent [OF g] s' by simp
next
  assume "fst (AccountManager_new e user None password s) = Inr r"
  then obtain address where "fst (generate_address e user None s) = Inr address"
    using AccountManager_new_address_ok by blast
  then show "\<exists>d ds. fst (get_active_domains e s) = Inr (d # ds)"
    by (rule generate_address_default_domain)
qed

lemma example_new:
  "fst (AccountManager_new (example_env example_server) None None None example_state) = Inr 1"
  by code_simp

theorem AccountManager_new_without_domain_witness:
  "get_active_domains (example_env no_domains_server) example_state =
     (Inr [], snd (get_active_domains (example_env no_domains_server) example_state))
   \<and> fst (AccountManager_new (example_env no_domains_server) None None None example_state)
       = Inl IndexError
   \<and> map req_verb (sent (snd (AccountManager_new (example_env no_domains_server) None None None
        example_state))) = [GET]
   \<and> get_active_domains (example_env example_server) example_state =
       (Inr [example_domain], snd (get_active_domains (example_env example_server) example_state))
   \<and> fst (generate_address (example_env example_server) None None example_state)
       = Inr (ascii ''bob@example.com'')
   \<and> map req_verb (sent (snd (AccountManager_new (example_env example_server) None None None
        example_state))) = [GET, POST]
   \<and> fst (AccountManager_new (example_env example_server) None None None example_state) = Inr 1"
proof -
  define e0 where "e0 = example_env no_domains_server"
  define e1 where "e1 = example_env example_server"
  have a: "get_active_domains e0 example_state = (Inr [], snd (get_active_domains e0 example_state))"
    using no_domains by (simp add: prod_eq_iff e0_def)
  have b: "get_active_domains e1 example_state
             = (Inr [example_domain], snd (get_active_domains e1 example_state))"
    using example_domains by (simp add: prod_eq_iff e1_def)
  have c: "sent example_state = []"
    by (simp add: example_state_def)
  have new: "fst (AccountManager_new e1 None None None example_state) = Inr 1"
    using example_new by (simp add: e1_def)
  note first = AccountManager_new_without_domain [of e0 example_state
      "snd (get_active_domains e0 example_state)" None None, THEN conjunct1, rule_format, OF a]
  note second = AccountManager_new_without_domain [where e = e1 and s = example_state
        and user = None and password = None,
      THEN conjunct2, THEN conjunct1, rule_format, OF b]
  have 1: "fst (AccountManager_new e0 None None None example_state) = Inl IndexError"
    using first by simp
  have 2: "map req_verb (sent (snd (AccountManager_new e0 None None None example_state))) = [GET]"
    using first c by (simp add: domains_request_verb)
  have 3: "fst (generate_address e1 None None example_state) = Inr (ascii ''bob@example.com'')"
    using second by (simp add: example_domain_def e1_def example_env_def)
  have 4: "map req_verb (sent (snd (AccountManager_new e1 None None None example_state)))
             = [GET, POST]"
    using second c by (simp add: build_request_eq)
  from a b 1 2 3 4 new show ?thesis
    unfolding e0_def e1_def by blast
qed

section \<open>The intro of a full message\<close>

lemma post_init_intro:
  assumes "msg_is_full_message m" "msg_intro m = None" "msg_text m = Some t"
  shows "msg_intro (Message_post_init m) =
    Some (take 120 (map (\<lambda>c. if c = newline then space else c) t)
            @ (if length t > 120 then [ellipsis] else []))"
  using assms by (simp add: Message_post_init_def replace_newlines_def Let_def)

lemma take_pattern:
  "take 120 (map (\<lambda>c. if c = newline then space else c)
               (concat (replicate 61 (ascii ''a'' @ [newline]))))
   = concat (replicate 60 (ascii ''a ''))"
  by code_simp

text \<open>
  Claim C1. A Message constructed with \<open>is_full_message\<close> true, no intro and a text gets as
  intro the first 120 characters of the text with every newline replaced by a space,
  followed by the character U+2026 exactly when the text has more than 120 characters.
  For the text of 61 times \<open>a\<close> and a newline, the intro is 60 times \<open>a\<close> and a space,
  followed by U+2026.
\<close>

theorem Message_init_intro:
  "(msg_is_full_message m \<longrightarrow> msg_intro m = None \<longrightarrow> msg_text m = Some t \<longrightarrow>
      msg_intro (msgs (snd (Message_init m s)) (fst (Message_init m s))) =
        Some (take 120 (map (\<lambda>c. if c = newline then space else c) t)
                @ (if length t > 120 then [ellipsis] else [])))
   \<and> (msg_is_full_message m \<longrightarrow> msg_intro m = None \<longrightarrow>
        msg_text m = Some (concat (replicate 61 (ascii ''a'' @ [newline]))) \<longrightarrow>
      msg_intro (msgs (snd (Message_init m s)) (fst (Message_init m s))) =
        Some (concat (replicate 60 (ascii ''a '')) @ [ellipsis]))"
proof -
  have sel: "msgs (snd (Message_init m s)) (fst (Message_init m s)) = Message_post_init m"
    by (simp add: Message_init_def)
  have len: "length (concat (replicate 61 (ascii ''a'' @ [newline]))) = 122"
    by code_simp
  show ?thesis
    unfolding sel using post_init_intro [of m] take_pattern len by simp
qed

theorem Message_init_intro_witness:
  "msg_is_full_message example_full_message \<and> msg_intro example_full_message = None
   \<and> msg_text example_full_message = Some (concat (replicate 61 (ascii ''a'' @ [newline])))
   \<and> msg_intro (msgs (snd (Message_init example_full_message example_state))
        (fst (Message_init example_full_message example_state))) =
        Some (concat (replicate 60 (ascii ''a '')) @ [ellipsis])"
proof -
  have h1: "msg_is_full_message example_full_message"
    and h2: "msg_intro example_full_message = None"
    and h3: "msg_text example_full_message
               = Some (concat (replicate 61 (ascii ''a'' @ [newline])))"
    by (simp_all add: example_full_message_def)
  from Message_init_intro [of example_full_message _ example_state, THEN conjunct2,
      rule_format, OF h1 h2 h3] h1 h2 h3
  show ?thesis by blast
qed

section \<open>What a download leaves untouched\<close>

lemma stores_extended_refl: "stores_extended s s"
  by (simp add: stores_extended_def)

lemma stores_extended_trans:
  "stores_extended s s1 \<Longrightarrow> stores_extended s1 s2 \<Longrightarrow> stores_extended s s2"
  by (auto simp add: stores_extended_def)

lemma Message_init_extends: "stores_extended s (snd (Message_init m s))"
  by (simp add: Message_init_def stores_extended_def)

lemma Message_init_sent: "sent (snd (Message_init m s)) = sent s"
  by (simp add: Message_init_def)

lemma Message_from_intro_dict_extends:
  "stores_extended s (snd (Message_from_intro_dict d a s))"
  using Message_init_extends
  by (auto simp add: Message_from_intro_dict_def stores_extended_refl split: sum.splits prod.splits)
    (metis snd_conv)

lemma Message_from_intro_dict_sent: "sent (snd (Message_from_intro_dict d a s)) = sent s"
  using Message_init_sent
  by (auto simp add: Message_from_intro_dict_def split: sum.splits prod.splits)
    (metis snd_conv)

lemma Messages_from_intro_list_extends:
  "stores_extended s (snd (Messages_from_intro_list ds a s))"
proof (induction ds arbitrary: s)
  case Nil
  show ?case by (simp add: stores_extended_refl)
next
  case (Cons d ds)
  obtain r1 s1 where 1: "Message_from_intro_dict d a s = (r1, s1)"
    by (cases "Message_from_intro_dict d a s")
  have e1: "stores_extended s s1"
    using Message_from_intro_dict_extends [of s d a] 1 by simp
  show ?case
  proof (cases r1)
    case (Inl err)
    with 1 e1 show ?thesis by simp
  next
    case (Inr r)
    obtain r2 s2 where 2: "Messages_from_intro_list ds a s1 = (r2, s2)"
      by (cases "Messages_from_intro_list ds a s1")
    have "stores_extended s1 s2"
      using Cons.IH [of s1] 2 by simp
    with e1 have "stores_extended s s2"
      by (rule stores_extended_trans)
    with 1 2 Inr show ?thesis
      by (cases r2) simp_all
  qed
qed

lemma Messages_from_intro_list_sent:
  "sent (snd (Messages_from_intro_list ds a s)) = sent s"
proof (induction ds arbitrary: s)
  case Nil
  show ?case by simp
next
  case (Cons d ds)
  obtain r1 s1 where 1: "Message_from_intro_dict d a s = (r1, s1)"
    by (cases "Message_from_intro_dict d a s")
  have e1: "sent s1 = sent s"
    using Message_from_intro_dict_sent [of d a s] 1 by simp
  show ?case
  proof (cases r1)
    case (Inl err)
    with 1 e1 show ?thesis by simp
  next
    case (Inr r)
    obtain r2 s2 where 2: "Messages_from_intro_list ds a s1 = (r2, s2)"
      by (cases "Messages_from_intro_list ds a s1")
    have "sent s2 = sent s1"
      using Cons.IH [of s1] 2 by simp
    with 1 2 Inr e1 show ?thesis
      by (cases r2) simp_all
  qed
qed

lemma after_request_extends: "stores_extended s (s\<lparr>sent := rs\<rparr>)"
  by (simp add: stores_extended_def)

lemma download_page_extends:
  "stores_extended s (snd (Account_download_messages_page e self page s))"
proof -
  let ?rq = "make_api_request e GET (ascii ''messages?page='' @ str_of_nat page)
               (acc_jwt (accounts s self)) None default_content s"
  have 1: "stores_extended s (snd ?rq)"
    by (simp add: make_api_request_state after_request_extends)
  show ?thesis
  proof (cases "fst ?rq")
    case (Inl err)
    then show ?thesis
      using 1 by (cases ?rq) (simp add: Account_download_messages_page_def)
  next
    case (Inr data)
    show ?thesis
    proof (cases "bindE (get_any data ''hydra:member'') py_iter")
      case (Inl err)
      with Inr 1 show ?thesis
        by (cases ?rq) (simp add: Account_download_messages_page_def)
    next
      case inr: (Inr items)
      have "stores_extended (snd ?rq) (snd (Messages_from_intro_list items self (snd ?rq)))"
        by (rule Messages_from_intro_list_extends)
      with 1 have "stores_extended s (snd (Messages_from_intro_list items self (snd ?rq)))"
        by (rule stores_extended_trans)
      with Inr inr show ?thesis
        by (cases ?rq) (simp add: Account_download_messages_page_def)
    qed
  qed
qed

lemma download_page_sent:
  "sent (snd (Account_download_messages_page e self page s)) =
     sent s @ [page_request e (acc_jwt (accounts s self)) page]"
proof -
  let ?rq = "make_api_request e GET (ascii ''messages?page='' @ str_of_nat page)
               (acc_jwt (accounts s self)) None default_content s"
  have 1: "sent (snd ?rq) = sent s @ [page_request e (acc_jwt (accounts s self)) page]"
    by (simp add: make_api_request_state page_request_def)
  show ?thesis
  proof (cases "fst ?rq")
    case (Inl err)
    then show ?thesis
      using 1 by (cases ?rq) (simp add: Account_download_messages_page_def)
  next
    case (Inr data)
    show ?thesis
    proof (cases "bindE (get_any data ''hydra:member'') py_iter")
      case (Inl err)
      with Inr 1 show ?thesis
        by (cases ?rq) (simp add: Account_download_messages_page_def)
    next
      case inr: (Inr items)
      have "sent (snd (Messages_from_intro_list items self (snd ?rq))) = sent (snd ?rq)"
        by (rule Messages_from_intro_list_sent)
      with Inr inr 1 show ?thesis
        by (cases ?rq) (simp add: Account_download_messages_page_def)
    qed
  qed
qed

lemma download_all_pages_extends:
  "download_all_pages e self page acc p s = Some y \<Longrightarrow> stores_extended s (snd y)"
proof (induction rule: download_all_pages.raw_induct [rotated 1, consumes 1, case_names step])
  case (step loop e self page acc p s y)
  show ?case
  proof (cases "length p > 0")
    case False
    with step(2) have "y = (Inr acc, s)" by simp
    then show ?thesis using stores_extended_refl [of s] by simp
  next
    case True
    obtain r1 s1 where d: "Account_download_messages_page e self (page + 1) s = (r1, s1)"
      by (cases "Account_download_messages_page e self (page + 1) s")
    have e1: "stores_extended s s1"
      using download_page_extends [of s e self "page + 1"] d by simp
    show ?thesis
    proof (cases r1)
      case (Inl err)
      with step(2) True d e1 show ?thesis by auto
    next
      case (Inr next_page)
      with step(2) True d have "loop e self (page + 1) (acc @ p) next_page s1 = Some y"
        by simp
      then have "stores_extended s1 (snd y)" by (rule step(1))
      with e1 show ?thesis by (rule stores_extended_trans)
    qed
  qed
qed


section \<open>Merging the downloaded messages\<close>

lemma add_new_messages_msgs: "msgs (add_new_messages self ms s) = msgs s"
  by (induction ms arbitrary: s) (simp_all add: update_account_def Let_def)

lemma add_new_messages_next_msg: "next_msg (add_new_messages self ms s) = next_msg s"
  by (induction ms arbitrary: s) (simp_all add: update_account_def Let_def)

lemma add_new_messages_sent: "sent (add_new_messages self ms s) = sent s"
  by (induction ms arbitrary: s) (simp_all add: update_account_def Let_def)

lemma add_new_messages_appends:
  "\<exists>new. acc_messages (accounts (add_new_messages self ms s) self)
           = acc_messages (accounts s self) @ new
     \<and> (\<forall>j<length new. \<forall>x\<in>set (acc_messages (accounts s self) @ take j new).
          msg_id (msgs s x) \<noteq> msg_id (msgs s (new ! j)))"
proof (induction ms arbitrary: s)
  case Nil
  show ?case by simp
next
  case (Cons m ms)
  let ?old = "acc_messages (accounts s self)"
  show ?case
  proof (cases "filter (\<lambda>x. msg_id (msgs s x) = msg_id (msgs s m)) ?old = []")
    case False
    then have "add_new_messages self (m # ms) s = add_new_messages self ms s"
      by (simp add: Let_def)
    with Cons.IH [of s] show ?thesis by simp
  next
    case True
    define s1 where "s1 = update_account self (\<lambda>a. a\<lparr>acc_messages := acc_messages a @ [m]\<rparr>) s"
    have step: "add_new_messages self (m # ms) s = add_new_messages self ms s1"
      using True by (simp add: Let_def s1_def)
    have old1: "acc_messages (accounts s1 self) = ?old @ [m]" and m1: "msgs s1 = msgs s"
      by (simp_all add: s1_def update_account_def)
    from Cons.IH [of s1] obtain new where
      eq: "acc_messages (accounts (add_new_messages self ms s1) self) = (?old @ [m]) @ new"
      and fresh: "\<forall>j<length new. \<forall>x\<in>set ((?old @ [m]) @ take j new).
          msg_id (msgs s x) \<noteq> msg_id (msgs s (new ! j))"
      unfolding old1 m1 by blast
    from True have first: "\<forall>x\<in>set ?old. msg_id (msgs s x) \<noteq> msg_id (msgs s m)"
      by (simp add: filter_empty_conv)
    have "\<forall>j<length (m # new). \<forall>x\<in>set (?old @ take j (m # new)).
          msg_id (msgs s x) \<noteq> msg_id (msgs s ((m # new) ! j))"
    proof (intro allI impI)
      fix j
      assume j: "j < length (m # new)"
      show "\<forall>x\<in>set (?old @ take j (m # new)).
          msg_id (msgs s x) \<noteq> msg_id (msgs s ((m # new) ! j))"
      proof (cases j)
        case 0
        with first show ?thesis by simp
      next
        case (Suc k)
        with j have "k < length new" by simp
        with fresh have "\<forall>x\<in>set ((?old @ [m]) @ take k new).
          msg_id (msgs s x) \<noteq> msg_id (msgs s (new ! k))" by blast
        with Suc show ?thesis by simp
      qed
    qed
    with eq step show ?thesis
      by (intro exI [of _ "m # new"]) simp
  qed
qed

lemma add_new_messages_distinct:
  "distinct (map (\<lambda>r. msg_id (msgs s r)) (acc_messages (accounts s self) @ ms))
   \<Longrightarrow> acc_messages (accounts (add_new_messages self ms s) self)
       = acc_messages (accounts s self) @ ms"
proof (induction ms arbitrary: s)
  case Nil
  show ?case by simp
next
  case (Cons m ms)
  let ?old = "acc_messages (accounts s self)"
  define s1 where "s1 = update_account self (\<lambda>a. a\<lparr>acc_messages := acc_messages a @ [m]\<rparr>) s"
  from Cons.prems have "msg_id (msgs s m) \<notin> (\<lambda>r. msg_id (msgs s r)) ` set ?old"
    by auto
  then have "\<forall>x\<in>set ?old. msg_id (msgs s x) \<noteq> msg_id (msgs s m)"
    by (metis imageI)
  then have "filter (\<lambda>x. msg_id (msgs s x) = msg_id (msgs s m)) ?old = []"
    by (simp add: filter_empty_conv)
  then have step: "add_new_messages self (m # ms) s = add_new_messages self ms s1"
    by (simp add: Let_def s1_def)
  have old1: "acc_messages (accounts s1 self) = ?old @ [m]" and m1: "msgs s1 = msgs s"
    by (simp_all add: s1_def update_account_def)
  have "distinct (map (\<lambda>r. msg_id (msgs s1 r)) (acc_messages (accounts s1 self) @ ms))"
    using Cons.prems by (simp add: old1 m1)
  from Cons.IH [OF this]
  have "acc_messages (accounts (add_new_messages self ms s1) self) = (?old @ [m]) @ ms"
    by (simp only: old1)
  then show ?case
    unfolding step by simp
qed

section \<open>The whole of get_all_messages_intro\<close>

lemma get_all_messages_intro_cases:
  assumes "Account_get_all_messages_intro e self s = Some (res, s')"
  shows "\<exists>s2. stores_extended s s2
     \<and> ((\<exists>err. res = Inl err \<and> s' = s2)
        \<or> (\<exists>ms. s' = add_new_messages self ms s2
              \<and> res = Inr (acc_messages (accounts s' self))))"
proof -
  obtain r1 s1 where d: "Account_download_messages_page e self 1 s = (r1, s1)"
    by (cases "Account_download_messages_page e self 1 s")
  have e1: "stores_extended s s1"
    using download_page_extends [of s e self 1] d by simp
  show ?thesis
  proof (cases r1)
    case (Inl err)
    with assms d e1 show ?thesis
      by (auto simp add: Account_get_all_messages_intro_def)
  next
    case (Inr pm)
    show ?thesis
    proof (cases "download_all_pages e self 1 [] pm s1")
      case None
      with assms d Inr show ?thesis
        by (simp add: Account_get_all_messages_intro_def)
    next
      case (Some y)
      obtain r2 s2 where y: "y = (r2, s2)" by (cases y)
      have "stores_extended s1 s2"
        using download_all_pages_extends [OF Some] y by simp
      with e1 have e2: "stores_extended s s2" by (rule stores_extended_trans)
      show ?thesis
      proof (cases r2)
        case (Inl err)
        with assms d Inr Some y e2 show ?thesis
          by (auto simp add: Account_get_all_messages_intro_def)
      next
        case inr: (Inr ms)
        with assms d Inr Some y have
          "s' = add_new_messages self ms s2" "res = Inr (acc_messages (accounts s' self))"
          by (auto simp add: Account_get_all_messages_intro_def Let_def)
        with e2 show ?thesis by blast
      qed
    qed
  qed
qed

lemma assign_from_keeps_full:
  assumes "\<And>v m. msg_is_full_message (f v m) = msg_is_full_message m"
    and "\<And>st. msg_is_full_message (msgs st self)
           \<Longrightarrow> msg_is_full_message (msgs (snd (k st)) self)"
    and "msg_is_full_message (msgs st self)"
  shows "msg_is_full_message (msgs (snd (assign_from r self f k st)) self)"
proof (cases r)
  case (Inl err)
  with assms(3) show ?thesis by (simp add: assign_from_def)
next
  case (Inr v)
  have "msg_is_full_message (msgs (update_msg self (f v) st) self)"
    using assms(1,3) by (simp add: update_msg_def)
  from assms(2) [OF this] Inr show ?thesis by (simp add: assign_from_def)
qed

lemma Message_get_full_message_full:
  assumes "fst (Message_get_full_message e self s) = Inr u"
  shows "msg_is_full_message (msgs (snd (Message_get_full_message e self s)) self)"
proof -
  let ?rq = "make_api_request e GET (ascii ''messages/'' @ msg_id (msgs s self))
             (acc_jwt (accounts s (msg_account (msgs s self)))) None default_content s"
  obtain r1 s1 where rq: "?rq = (r1, s1)" by (cases ?rq)
  show ?thesis
  proof (cases r1)
    case (Inl err)
    with rq assms show ?thesis by (simp add: Message_get_full_message_def)
  next
    case (Inr data)
    have "msg_is_full_message
            (msgs (update_msg self (\<lambda>m. m\<lparr>msg_is_full_message := True\<rparr>) s1) self)"
      by (simp add: update_msg_def)
    then show ?thesis
      unfolding Message_get_full_message_def rq Inr prod.case sum.case
      by (intro assign_from_keeps_full) simp_all
  qed
qed

text \<open>
  Claim C2. Whatever \<open>get_all_messages_intro\<close> returns, the account's message list
  afterwards is the list before followed by new entries, and the id of each new entry
  differs from the id of every entry before it in the list: a summary is appended only
  if no message with its id is in the list. No Message object that existed before the
  call has changed. So a message of the list that was full before the call is still in
  the list and still full after it; in particular a message of the list that
  \<open>get_full_message\<close> has just downloaded in full. A list that is returned is the
  account's list.
\<close>

theorem get_all_messages_intro_keeps_messages:
  assumes "Account_get_all_messages_intro e self s = Some (res, s')"
  shows "(\<exists>new. acc_messages (accounts s' self) = acc_messages (accounts s self) @ new
           \<and> (\<forall>j<length new. \<forall>x\<in>set (acc_messages (accounts s self) @ take j new).
                 msg_id (msgs s' x) \<noteq> msg_id (msgs s' (new ! j))))
     \<and> (\<forall>r<next_msg s. msgs s' r = msgs s r)
     \<and> (\<forall>r\<in>set (acc_messages (accounts s self)).
           r < next_msg s \<longrightarrow> msg_is_full_message (msgs s r) \<longrightarrow>
           r \<in> set (acc_messages (accounts s' self)) \<and> msg_is_full_message (msgs s' r))
     \<and> (\<forall>m s0 u. Message_get_full_message e m s0 = (Inr u, s) \<longrightarrow>
           m \<in> set (acc_messages (accounts s self)) \<longrightarrow> m < next_msg s \<longrightarrow>
           m \<in> set (acc_messages (accounts s' self)) \<and> msg_is_full_message (msgs s' m))
     \<and> (\<forall>ms. res = Inr ms \<longrightarrow> ms = acc_messages (accounts s' self))"
proof -
  from get_all_messages_intro_cases [OF assms] obtain s2 where
    ext: "stores_extended s s2"
    and alt: "(\<exists>err. res = Inl err \<and> s' = s2)
        \<or> (\<exists>ms. s' = add_new_messages self ms s2
              \<and> res = Inr (acc_messages (accounts s' self)))"
    by blast
  from ext have acc2: "accounts s2 = accounts s"
    and old2: "\<forall>r<next_msg s. msgs s2 r = msgs s r"
    by (simp_all add: stores_extended_def)
  have msgs': "msgs s' = msgs s2"
    using alt by (auto simp add: add_new_messages_msgs)
  have A: "\<exists>new. acc_messages (accounts s' self) = acc_messages (accounts s self) @ new
           \<and> (\<forall>j<length new. \<forall>x\<in>set (acc_messages (accounts s self) @ take j new).
                 msg_id (msgs s' x) \<noteq> msg_id (msgs s' (new ! j)))"
  proof (rule disjE [OF alt])
    assume "\<exists>err. res = Inl err \<and> s' = s2"
    then have "acc_messages (accounts s' self) = acc_messages (accounts s self) @ []"
      using acc2 by auto
    then show ?thesis by (intro exI [of _ "[]"]) simp
  next
    assume "\<exists>ms. s' = add_new_messages self ms s2
              \<and> res = Inr (acc_messages (accounts s' self))"
    then obtain ms where s': "s' = add_new_messages self ms s2" by blast
    from add_new_messages_appends [of self ms s2] show ?thesis
      unfolding s' add_new_messages_msgs acc2 .
  qed
  have B: "\<forall>r<next_msg s. msgs s' r = msgs s r"
    using old2 msgs' by simp
  have C: "\<forall>r\<in>set (acc_messages (accounts s self)).
           r < next_msg s \<longrightarrow> msg_is_full_message (msgs s r) \<longrightarrow>
           r \<in> set (acc_messages (accounts s' self)) \<and> msg_is_full_message (msgs s' r)"
    using A B by auto
  have E: "\<forall>m s0 u. Message_get_full_message e m s0 = (Inr u, s) \<longrightarrow>
           m \<in> set (acc_messages (accounts s self)) \<longrightarrow> m < next_msg s \<longrightarrow>
           m \<in> set (acc_messages (accounts s' self)) \<and> msg_is_full_message (msgs s' m)"
  proof (intro allI impI)
    fix m s0 u
    assume up: "Message_get_full_message e m s0 = (Inr u, s)"
      and m: "m \<in> set (acc_messages (accounts s self))" "m < next_msg s"
    have "msg_is_full_message (msgs s m)"
      using Message_get_full_message_full [of e m s0 u] up by simp
    with C m show "m \<in> set (acc_messages (accounts s' self)) \<and> msg_is_full_message (msgs s' m)"
      by blast
  qed
  have D: "\<forall>ms. res = Inr ms \<longrightarrow> ms = acc_messages (accounts s' self)"
    using alt by auto
  from A B C D E show ?thesis by blast
qed

section \<open>The pagination loop\<close>

lemma download_all_pages_served:
  "pages_served e self page' s ps s' \<Longrightarrow> page' = Suc page \<Longrightarrow> p \<noteq> []
   \<Longrightarrow> download_all_pages e self page acc p s = Some (Inr (acc @ p @ concat ps), s')"
proof (induction arbitrary: page acc p rule: pages_served.induct)
  case (last_page e self page' s s')
  then show ?case
    by (subst download_all_pages.simps) (simp add: download_all_pages.simps [of _ _ _ _ "[]"])
next
  case (next_page e self page' s q s1 ps s')
  have "download_all_pages e self (Suc page) (acc @ p) q s1
          = Some (Inr ((acc @ p) @ q @ concat ps), s')"
    using next_page.IH [of "Suc page" q "acc @ p"] next_page.prems next_page.hyps by simp
  with next_page.hyps next_page.prems show ?case
    by (subst download_all_pages.simps) simp
qed

lemma pages_served_extends:
  "pages_served e self page s ps s' \<Longrightarrow> stores_extended s s'"
proof (induction rule: pages_served.induct)
  case (last_page e self page s s')
  then show ?case
    using download_page_extends [of s e self page] by simp
next
  case (next_page e self page s p s1 ps s')
  then show ?case
    using download_page_extends [of s e self page] stores_extended_trans by fastforce
qed

lemma pages_served_sent:
  "pages_served e self page s ps s' \<Longrightarrow>
   sent s' = sent s @ map (page_request e (acc_jwt (accounts s self))) [page..<page + length ps + 1]"
proof (induction rule: pages_served.induct)
  case (last_page e self page s s')
  then show ?case
    using download_page_sent [of e self page s] by simp
next
  case (next_page e self page s p s1 ps s')
  have 1: "sent s1 = sent s @ [page_request e (acc_jwt (accounts s self)) page]"
    using download_page_sent [of e self page s] next_page.hyps by simp
  have "stores_extended s s1"
    using download_page_extends [of s e self page] next_page.hyps by simp
  then have 2: "accounts s1 = accounts s"
    by (simp add: stores_extended_def)
  have "page < page + length (p # ps) + 1" by simp
  from upt_conv_Cons [OF this]
  have 3: "[page..<page + length (p # ps) + 1] = page # [Suc page..<Suc page + length ps + 1]"
    by (simp only: list.size add_Suc add_Suc_right Suc_eq_plus1 [symmetric] add_0_right)
  show ?case
    unfolding 3 using next_page.IH by (simp add: 1 2)
qed

lemma get_all_messages_intro_served:
  assumes "pages_served e self 1 s ps s'"
  shows "Account_get_all_messages_intro e self s =
     Some (Inr (acc_messages (accounts (add_new_messages self (concat ps) s') self)),
           add_new_messages self (concat ps) s')"
  using assms
proof (cases rule: pages_served.cases)
  case last_page
  then show ?thesis
    by (simp add: Account_get_all_messages_intro_def download_all_pages.simps [of _ _ _ _ "[]"])
next
  case (next_page p s1 ps')
  have "download_all_pages e self 1 [] p s1 = Some (Inr ([] @ p @ concat ps'), s')"
    using next_page by (intro download_all_pages_served [of e self "Suc 1"]) simp_all
  with next_page show ?thesis
    by (simp add: Account_get_all_messages_intro_def Let_def)
qed

text \<open>
  Claim C3, as amended. Let the server answer the requests for page 1, page 2, ... with
  the pages \<open>ps\<close>, each with at least one element, and then with a page of no element.
  Then \<open>get_all_messages_intro\<close> returns; the requests it has sent are the requests for
  the pages 1, ..., \<open>length ps + 1\<close>, in this order, so it stops at the first page of no
  element; the summaries of all the pages, in order, are what it merges into the
  account's list; and its result is the account's list. If moreover the account's list
  was empty before the call and the downloaded summaries have pairwise distinct ids, the
  list returned holds exactly the summaries of the pages, as many as the sizes of the
  pages add up to.
\<close>

theorem get_all_messages_intro_pages:
  assumes "pages_served e self 1 s ps s'"
  shows "Account_get_all_messages_intro e self s =
       Some (Inr (acc_messages (accounts (add_new_messages self (concat ps) s') self)),
             add_new_messages self (concat ps) s')
     \<and> sent (add_new_messages self (concat ps) s') =
         sent s @ map (page_request e (acc_jwt (accounts s self))) [1..<length ps + 2]
     \<and> (acc_messages (accounts s self) = [] \<longrightarrow>
        distinct (map (\<lambda>r. msg_id (msgs s' r)) (concat ps)) \<longrightarrow>
        acc_messages (accounts (add_new_messages self (concat ps) s') self) = concat ps
        \<and> length (concat ps) = sum_list (map length ps))"
proof (intro conjI impI)
  show "Account_get_all_messages_intro e self s =
       Some (Inr (acc_messages (accounts (add_new_messages self (concat ps) s') self)),
             add_new_messages self (concat ps) s')"
    by (rule get_all_messages_intro_served [OF assms])
  show "sent (add_new_messages self (concat ps) s') =
         sent s @ map (page_request e (acc_jwt (accounts s self))) [1..<length ps + 2]"
    using pages_served_sent [OF assms] by (simp add: add_new_messages_sent)
  show "length (concat ps) = sum_list (map length ps)"
    by (simp add: length_concat)
next
  assume empty: "acc_messages (accounts s self) = []"
    and ids: "distinct (map (\<lambda>r. msg_id (msgs s' r)) (concat ps))"
  have "stores_extended s s'"
    using assms by (rule pages_served_extends)
  then have "acc_messages (accounts s' self) = []"
    using empty by (simp add: stores_extended_def)
  with ids show "acc_messages (accounts (add_new_messages self (concat ps) s') self) = concat ps"
    using add_new_messages_distinct [of s' self "concat ps"] by simp
qed

section \<open>Runs of the examples\<close>

lemma summary_fields: "Message_intro_fields (summary_json i) a = Inr (summary_message i a)"
  by (simp add: Message_intro_fields_def summary_json_def summary_message_def get_str_def
      get_any_def get_bool_def get_int_def get_opt_str_def bindE_def)

lemma summary_post_init: "Message_post_init (summary_message i a) = summary_message i a"
  by (simp add: Message_post_init_def summary_message_def)

lemma summaries_stored:
  "Messages_from_intro_list (map summary_json ids) a s =
     (Inr [next_msg s..<next_msg s + length ids], store_summaries ids a s)"
proof (induction ids arbitrary: s)
  case Nil
  show ?case by simp
next
  case (Cons i ids)
  let ?s1 = "s\<lparr>msgs := (msgs s)(next_msg s := summary_message i a), next_msg := Suc (next_msg s)\<rparr>"
  have 1: "Message_from_intro_dict (summary_json i) a s = (Inr (next_msg s), ?s1)"
    by (simp add: Message_from_intro_dict_def summary_fields Message_init_def summary_post_init)
  have e: "next_msg s + length (i # ids) = Suc (next_msg s) + length ids"
    by simp
  have 2: "[next_msg s..<next_msg s + length (i # ids)]
             = next_msg s # [Suc (next_msg s)..<Suc (next_msg s) + length ids]"
    unfolding e by (rule upt_conv_Cons) simp
  show ?case
    unfolding 2 using Cons.IH [of ?s1] by (simp add: 1)
qed

lemma download_summaries:
  assumes "server e (sent s) (page_request e (acc_jwt (accounts s self)) page)
             = ok_response (page_json (map summary_json ids))"
  shows "Account_download_messages_page e self page s =
     (Inr [next_msg s..<next_msg s + length ids],
      store_summaries ids self
        (after_request (page_request e (acc_jwt (accounts s self)) page) s))"
proof -
  let ?rq = "page_request e (acc_jwt (accounts s self)) page"
  have "make_api_request e GET (ascii ''messages?page='' @ str_of_nat page)
          (acc_jwt (accounts s self)) None default_content s
        = (Inr (page_json (map summary_json ids)), after_request ?rq s)"
    using assms
    by (simp add: make_api_request_def Let_def page_request_def ok_response_def
        raise_for_status_def response_json_def after_request_def)
  moreover have "bindE (get_any (page_json (map summary_json ids)) ''hydra:member'') py_iter
        = Inr (map summary_json ids)"
    by (simp add: page_json_def get_any_def bindE_def)
  moreover have "next_msg (after_request ?rq s) = next_msg s"
    by (simp add: after_request_def)
  ultimately show ?thesis
    by (simp add: Account_download_messages_page_def summaries_stored)
qed

lemma two_pages_served:
  assumes "\<And>h jwt. server e h (page_request e jwt 1)
             = ok_response (page_json (map summary_json [i1, i2]))"
    and "\<And>h jwt. server e h (page_request e jwt 2)
             = ok_response (page_json (map summary_json [i3, i4]))"
    and "\<And>h jwt. server e h (page_request e jwt 3)
             = ok_response (page_json (map summary_json []))"
  shows "pages_served e self 1 s
     [[next_msg s, Suc (next_msg s)], [Suc (Suc (next_msg s)), Suc (Suc (Suc (next_msg s)))]]
     (pages_stored e self 1 [[i1, i2], [i3, i4]] s)"
proof -
  let ?jwt = "acc_jwt (accounts s self)"
  let ?s1 = "store_summaries [i1, i2] self (after_request (page_request e ?jwt 1) s)"
  let ?s2 = "store_summaries [i3, i4] self (after_request (page_request e ?jwt (Suc 1)) ?s1)"
  let ?s3 = "after_request (page_request e ?jwt (Suc (Suc 1))) ?s2"
  have eq3: "Suc (Suc 1) = 3" by simp
  have a2: "server e h (page_request e jwt (Suc 1))
             = ok_response (page_json (map summary_json [i3, i4]))" for h jwt
    unfolding Suc_1 by (rule assms(2))
  have a3: "server e h (page_request e jwt (Suc (Suc 1)))
             = ok_response (page_json (map summary_json []))" for h jwt
    unfolding eq3 by (rule assms(3))
  have l2: "[m..<m + length [x, y]] = [m, Suc m]" for m :: nat and x y :: string
    by (simp add: upt_rec)
  have l0: "[m..<m + length ([] :: string list)] = []" for m :: nat
    by simp
  have acc1: "accounts ?s1 = accounts s" and n1: "next_msg ?s1 = Suc (Suc (next_msg s))"
    by (simp_all add: after_request_def)
  have acc2: "accounts ?s2 = accounts s"
    by (simp add: after_request_def)
  have a: "Account_download_messages_page e self 1 s
             = (Inr [next_msg s, Suc (next_msg s)], ?s1)"
    using download_summaries [of e s self 1 "[i1, i2]", OF assms(1)] unfolding l2 .
  have b: "Account_download_messages_page e self (Suc 1) ?s1
             = (Inr [Suc (Suc (next_msg s)), Suc (Suc (Suc (next_msg s)))], ?s2)"
    using download_summaries [of e ?s1 self "Suc 1" "[i3, i4]", OF a2] unfolding l2 acc1 n1 .
  have c: "Account_download_messages_page e self (Suc (Suc 1)) ?s2 = (Inr [], ?s3)"
    using download_summaries [of e ?s2 self "Suc (Suc 1)" "[]", OF a3]
    unfolding l0 acc2 store_summaries.simps(1) .
  have "pages_served e self 1 s
     [[next_msg s, Suc (next_msg s)], [Suc (Suc (next_msg s)), Suc (Suc (Suc (next_msg s)))]] ?s3"
    by (rule next_page [OF a _ next_page [OF b _ last_page [OF c]]]) simp_all
  moreover have "pages_stored e self 1 [[i1, i2], [i3, i4]] s = ?s3"
    by (simp only: pages_stored.simps acc1 acc2)
  ultimately show ?thesis by simp
qed

lemma example_server_pages:
  "example_server h (page_request e jwt 1)
     = ok_response (page_json (map summary_json [''m1'', ''m2'']))"
  "example_server h (page_request e jwt 2)
     = ok_response (page_json (map summary_json [''m3'', ''m4'']))"
  "example_server h (page_request e jwt 3) = ok_response (page_json (map summary_json []))"
  by (simp_all add: example_server_def page_request_def build_request_eq api_address_def)

lemma overlapping_server_pages:
  "overlapping_server h (page_request e jwt 1)
     = ok_response (page_json (map summary_json [''m1'', ''m2'']))"
  "overlapping_server h (page_request e jwt 2)
     = ok_response (page_json (map summary_json [''m2'', ''m3'']))"
  "overlapping_server h (page_request e jwt 3) = ok_response (page_json (map summary_json []))"
  by (simp_all add: overlapping_server_def page_request_def build_request_eq api_address_def)

lemma example_env_server: "server (example_env srv) = srv"
  by (simp add: example_env_def)

lemma example_served:
  "pages_served (example_env example_server) self 1 s
     [[next_msg s, Suc (next_msg s)], [Suc (Suc (next_msg s)), Suc (Suc (Suc (next_msg s)))]]
     (pages_stored (example_env example_server) self 1 [[''m1'', ''m2''], [''m3'', ''m4'']] s)"
  by (rule two_pages_served) (simp_all only: example_env_server example_server_pages)

lemma overlapping_served:
  "pages_served (example_env overlapping_server) self 1 s
     [[next_msg s, Suc (next_msg s)], [Suc (Suc (next_msg s)), Suc (Suc (Suc (next_msg s)))]]
     (pages_stored (example_env overlapping_server) self 1 [[''m1'', ''m2''], [''m2'', ''m3'']] s)"
  by (rule two_pages_served) (simp_all only: example_env_server overlapping_server_pages)

lemma pages_stored_two:
  "accounts (pages_stored e self page [[i1, i2], [i3, i4]] s) = accounts s"
  "msgs (pages_stored e self page [[i1, i2], [i3, i4]] s) (next_msg s) = summary_message i1 self"
  "msgs (pages_stored e self page [[i1, i2], [i3, i4]] s) (Suc (next_msg s))
     = summary_message i2 self"
  "msgs (pages_stored e self page [[i1, i2], [i3, i4]] s) (Suc (Suc (next_msg s)))
     = summary_message i3 self"
  "msgs (pages_stored e self page [[i1, i2], [i3, i4]] s) (Suc (Suc (Suc (next_msg s))))
     = summary_message i4 self"
  "r < next_msg s \<Longrightarrow> msgs (pages_stored e self page [[i1, i2], [i3, i4]] s) r = msgs s r"
  by (simp_all add: after_request_def)

declare pages_stored.simps [simp del]

lemma summary_message_id: "msg_id (summary_message i a) = ascii i"
  by (simp add: summary_message_def)

text \<open>The list \<open>add_new_messages\<close> leaves, computed on the list alone.\<close>

lemma add_new_messages_list:
  "acc_messages (accounts (add_new_messages self ms s) self) =
     fold (\<lambda>m l. if filter (\<lambda>x. msg_id (msgs s x) = msg_id (msgs s m)) l = []
                  then l @ [m] else l)
       ms (acc_messages (accounts s self))"
proof (induction ms arbitrary: s)
  case Nil
  show ?case by simp
next
  case (Cons m ms)
  let ?old = "acc_messages (accounts s self)"
  define s1 where "s1 = update_account self (\<lambda>a. a\<lparr>acc_messages := acc_messages a @ [m]\<rparr>) s"
  have old1: "acc_messages (accounts s1 self) = ?old @ [m]" and m1: "msgs s1 = msgs s"
    by (simp_all add: s1_def update_account_def)
  show ?case
  proof (cases "filter (\<lambda>x. msg_id (msgs s x) = msg_id (msgs s m)) ?old = []")
    case True
    then have "add_new_messages self (m # ms) s = add_new_messages self ms s1"
      by (simp add: Let_def s1_def)
    with Cons.IH [of s1] True show ?thesis
      by (simp add: old1 m1)
  next
    case False
    then have "add_new_messages self (m # ms) s = add_new_messages self ms s"
      by (simp add: Let_def)
    with Cons.IH [of s] False show ?thesis
      by simp
  qed
qed

lemma example_state_fields:
  "next_msg example_state = 0" "sent example_state = []"
  "acc_messages (accounts example_state a) = []"
  by (simp_all add: example_state_def example_account_def)

lemma full_state_fields:
  "next_msg full_state = Suc 0" "sent full_state = []"
  "acc_messages (accounts full_state a) = [0]"
  "msgs full_state r = example_full_message"
  by (simp_all add: full_state_def example_account_def)

lemma small_numerals:
  "(2::nat) = Suc (Suc 0)" "(3::nat) = Suc (Suc (Suc 0))" "(4::nat) = Suc (Suc (Suc (Suc 0)))"
  by simp_all

theorem get_all_messages_intro_pages_witness:
  "pages_served (example_env example_server) 0 1 example_state [[0, 1], [2, 3]]
     (pages_stored (example_env example_server) 0 1 [[''m1'', ''m2''], [''m3'', ''m4'']]
        example_state)
   \<and> acc_messages (accounts example_state 0) = []
   \<and> distinct (map (\<lambda>r. msg_id (msgs (pages_stored (example_env example_server) 0 1
          [[''m1'', ''m2''], [''m3'', ''m4'']] example_state) r)) (concat [[0, 1], [2, 3]]))
   \<and> (\<exists>s''. Account_get_all_messages_intro (example_env example_server) 0 example_state
                = Some (Inr [0, 1, 2, 3], s'')
           \<and> length (acc_messages (accounts s'' 0)) = 4
           \<and> length (sent s'') = 3)"
proof -
  define e where "e = example_env example_server"
  define s' where "s' = pages_stored e 0 1 [[''m1'', ''m2''], [''m3'', ''m4'']] example_state"
  define s'' where "s'' = add_new_messages 0 (concat [[0, 1], [2, 3]]) s'"
  have served: "pages_served e 0 1 example_state [[0, 1], [2, 3]] s'"
    using example_served [of 0 example_state]
    by (simp add: example_state_fields small_numerals e_def s'_def)
  have empty: "acc_messages (accounts example_state 0) = []"
    by (simp add: example_state_fields)
  have i0: "msg_id (msgs s' 0) = ascii ''m1''"
    and i1: "msg_id (msgs s' (Suc 0)) = ascii ''m2''"
    and i2: "msg_id (msgs s' 2) = ascii ''m3''"
    and i3: "msg_id (msgs s' 3) = ascii ''m4''"
    using pages_stored_two(2-5) [of e 0 1 "''m1''" "''m2''" "''m3''" "''m4''" example_state]
    by (simp_all add: example_state_fields small_numerals summary_message_id s'_def)
  have ids: "distinct (map (\<lambda>r. msg_id (msgs s' r)) (concat [[0, 1], [2, 3]]))"
    by (simp add: i0 i1 i2 i3)
  note pages = get_all_messages_intro_pages [OF served, folded s''_def]
  from pages have l: "acc_messages (accounts s'' 0) = concat [[0, 1], [2, 3]]"
    using empty ids by blast
  from pages have run: "Account_get_all_messages_intro e 0 example_state
            = Some (Inr (acc_messages (accounts s'' 0)), s'')"
    by blast
  from pages have snt: "sent s'' = sent example_state
                @ map (page_request e (acc_jwt (accounts example_state 0)))
                    [1..<length [[0, 1], [2, 3::nat]] + 2]"
    by blast
  have 1: "Account_get_all_messages_intro e 0 example_state = Some (Inr [0, 1, 2, 3], s'')"
    using run unfolding l by simp
  have 2: "length (acc_messages (accounts s'' 0)) = 4"
    unfolding l by simp
  have 3: "length (sent s'') = 3"
    unfolding snt by (simp add: example_state_fields)
  from 1 2 3 have "\<exists>s''. Account_get_all_messages_intro e 0 example_state
                = Some (Inr [0, 1, 2, 3], s'')
           \<and> length (acc_messages (accounts s'' 0)) = 4
           \<and> length (sent s'') = 3"
    by blast
  with served empty ids show ?thesis
    unfolding s'_def e_def by blast
qed

theorem get_all_messages_intro_pages_counterexample:
  "pages_served (example_env overlapping_server) 0 1 example_state [[0, 1], [2, 3]]
     (pages_stored (example_env overlapping_server) 0 1 [[''m1'', ''m2''], [''m2'', ''m3'']]
        example_state)
   \<and> acc_messages (accounts example_state 0) = []
   \<and> Account_get_all_messages_intro (example_env overlapping_server) 0 example_state
       = Some (Inr [0, 1, 3],
           add_new_messages 0 [0, 1, 2, 3]
             (pages_stored (example_env overlapping_server) 0 1
                [[''m1'', ''m2''], [''m2'', ''m3'']] example_state))"
proof -
  define e where "e = example_env overlapping_server"
  define s' where "s' = pages_stored e 0 1 [[''m1'', ''m2''], [''m2'', ''m3'']] example_state"
  define s'' where "s'' = add_new_messages 0 [0, 1, 2, 3] s'"
  have served: "pages_served e 0 1 example_state [[0, 1], [2, 3]] s'"
    using overlapping_served [of 0 example_state]
    by (simp add: example_state_fields small_numerals e_def s'_def)
  have empty: "acc_messages (accounts s' 0) = []"
    by (simp add: pages_stored_two(1) example_state_fields s'_def)
  have i0: "msg_id (msgs s' 0) = ascii ''m1''"
    and i1: "msg_id (msgs s' (Suc 0)) = ascii ''m2''"
    and i2: "msg_id (msgs s' 2) = ascii ''m2''"
    and i3: "msg_id (msgs s' 3) = ascii ''m3''"
    using pages_stored_two(2-5) [of e 0 1 "''m1''" "''m2''" "''m2''" "''m3''" example_state]
    by (simp_all add: example_state_fields small_numerals summary_message_id s'_def)
  have merged: "acc_messages (accounts s'' 0) = [0, 1, 3]"
    unfolding s''_def
    by (simp add: add_new_messages_list empty i0 i1 i2 i3 del: add_new_messages.simps)
  have run: "Account_get_all_messages_intro e 0 example_state = Some (Inr [0, 1, 3], s'')"
    using get_all_messages_intro_served [OF served] merged
    by (simp add: s''_def del: add_new_messages.simps)
  have "acc_messages (accounts example_state 0) = []"
    by (simp add: example_state_fields)
  with served run show ?thesis
    unfolding s''_def s'_def e_def by blast
qed

lemma upgraded_state_fields:
  "fst (Message_get_full_message (example_env example_server) 0 summary_state) = Inr ()"
  "next_msg upgraded_state = Suc 0"
  "acc_messages (accounts upgraded_state 0) = [0]"
  "msg_id (msgs upgraded_state 0) = ascii ''m1''"
  by (simp_all add: upgraded_state_def Message_get_full_message_def make_api_request_def
      Let_def build_request_eq summary_state_def summary_message_def example_account_def
      example_env_def example_server_def api_address_def ok_response_def raise_for_status_def
      response_json_def full_json_def assign_from_def get_any_def get_opt_bool_def
      get_opt_str_def bindE_def update_msg_def)

theorem get_all_messages_intro_keeps_messages_witness:
  "Message_get_full_message (example_env example_server) 0 summary_state
     = (Inr (), upgraded_state)
   \<and> \<not> msg_is_full_message (msgs summary_state 0)
   \<and> acc_messages (accounts upgraded_state 0) = [0] \<and> 0 < next_msg upgraded_state
   \<and> Account_get_all_messages_intro (example_env example_server) 0 upgraded_state
     = Some (Inr [0, 2, 3, 4],
         add_new_messages 0 [1, 2, 3, 4]
           (pages_stored (example_env example_server) 0 1
              [[''m1'', ''m2''], [''m3'', ''m4'']] upgraded_state))
   \<and> acc_messages (accounts (add_new_messages 0 [1, 2, 3, 4]
           (pages_stored (example_env example_server) 0 1
              [[''m1'', ''m2''], [''m3'', ''m4'']] upgraded_state)) 0) = [0, 2, 3, 4]
   \<and> msg_is_full_message (msgs (add_new_messages 0 [1, 2, 3, 4]
           (pages_stored (example_env example_server) 0 1
              [[''m1'', ''m2''], [''m3'', ''m4'']] upgraded_state)) 0)"
proof -
  define e where "e = example_env example_server"
  define s' where "s' = pages_stored e 0 1 [[''m1'', ''m2''], [''m3'', ''m4'']] upgraded_state"
  define s'' where "s'' = add_new_messages 0 [1, 2, 3, 4] s'"
  have up: "Message_get_full_message e 0 summary_state = (Inr (), upgraded_state)"
    using upgraded_state_fields(1) by (simp add: prod_eq_iff upgraded_state_def e_def)
  have before: "\<not> msg_is_full_message (msgs summary_state 0)"
    by (simp add: summary_state_def summary_message_def)
  have served: "pages_served e 0 1 upgraded_state [[1, 2], [3, 4]] s'"
    using example_served [of 0 upgraded_state]
    by (simp add: upgraded_state_fields small_numerals e_def s'_def)
  have list': "acc_messages (accounts s' 0) = [0]"
    by (simp add: pages_stored_two(1) upgraded_state_fields s'_def)
  have i0: "msg_id (msgs s' 0) = ascii ''m1''"
    using pages_stored_two(6) [of 0 upgraded_state e 0 1 "''m1''" "''m2''" "''m3''" "''m4''"]
    by (simp add: upgraded_state_fields s'_def)
  have i1: "msg_id (msgs s' (Suc 0)) = ascii ''m1''"
    and i2: "msg_id (msgs s' 2) = ascii ''m2''"
    and i3: "msg_id (msgs s' 3) = ascii ''m3''"
    and i4: "msg_id (msgs s' 4) = ascii ''m4''"
    using pages_stored_two(2-5) [of e 0 1 "''m1''" "''m2''" "''m3''" "''m4''" upgraded_state]
    by (simp_all add: upgraded_state_fields small_numerals summary_message_id s'_def)
  have merged: "acc_messages (accounts s'' 0) = [0, 2, 3, 4]"
    unfolding s''_def
    by (simp add: add_new_messages_list list' i0 i1 i2 i3 i4 del: add_new_messages.simps)
  have run: "Account_get_all_messages_intro e 0 upgraded_state = Some (Inr [0, 2, 3, 4], s'')"
    using get_all_messages_intro_served [OF served] merged
    by (simp add: s''_def del: add_new_messages.simps)
  have old: "acc_messages (accounts upgraded_state 0) = [0]" "0 < next_msg upgraded_state"
    by (simp_all add: upgraded_state_fields)
  have "Message_get_full_message e 0 summary_state = (Inr (), upgraded_state) \<longrightarrow>
        0 \<in> set (acc_messages (accounts upgraded_state 0)) \<longrightarrow> 0 < next_msg upgraded_state \<longrightarrow>
        0 \<in> set (acc_messages (accounts s'' 0)) \<and> msg_is_full_message (msgs s'' 0)"
    using get_all_messages_intro_keeps_messages [OF run] by blast
  with up old have "msg_is_full_message (msgs s'' 0)"
    by simp
  with up before run old merged show ?thesis
    unfolding s''_def s'_def e_def by blast
qed

end
